theory Spec2Isabelle
  imports Main "HOL-Library.List_Lexorder" "HOL-Library.Multiset" "HOL-Library.AList"
begin

section \<open>Text, integers and errors\<close>

text \<open>
  Python text is modelled by \<^typ>\<open>string\<close>: a list of characters with code points below 256.
  Python integers are unbounded and are modelled by \<^typ>\<open>int\<close>. Every exception the source
  can raise is a value of \<open>error\<close>; a function that can raise returns \<open>error + 'a\<close>.
  The interpreter's configurable limit on the length of decimal conversions is not modelled.
\<close>

datatype error =
  ValueError | OSError | UnicodeDecodeError | ConnectionError | HTTPError
  | JSONDecodeError | KeyError | LZMAError | IndexError

definition is_digit :: "char \<Rightarrow> bool" where
  "is_digit c = (c \<in> set ''0123456789'')"

definition digit_val :: "char \<Rightarrow> nat" where
  "digit_val c = (of_char c :: nat) - 48"

definition digit_char :: "nat \<Rightarrow> char" where
  "digit_char d = ''0123456789'' ! d"

text \<open>The value of a string of decimal digits, most significant digit first.\<close>

definition dec_value :: "string \<Rightarrow> nat" where
  "dec_value ds = foldl (\<lambda>acc c. 10 * acc + digit_val c) 0 ds"

text \<open>The shortest decimal numeral of a natural number.\<close>

fun dec_digits :: "nat \<Rightarrow> string" where
  "dec_digits n = (if n < 10 then [digit_char n] else dec_digits (n div 10) @ [digit_char (n mod 10)])"

declare dec_digits.simps [simp del]

text \<open>\<^verbatim>\<open>str(i)\<close> and the \<^verbatim>\<open>{i}\<close> of an f-string, for an integer.\<close>

definition py_str :: "int \<Rightarrow> string" where
  "py_str i = (if i < 0 then CHR ''-'' # dec_digits (nat (- i)) else dec_digits (nat i))"

text \<open>\<^verbatim>\<open>f"{i:02d}"\<close>: the sign counts towards the width of two.\<close>

definition format_02d :: "int \<Rightarrow> string" where
  "format_02d i =
     (if i < 0 then CHR ''-'' # dec_digits (nat (- i))
      else replicate (2 - length (dec_digits (nat i))) CHR ''0'' @ dec_digits (nat i))"

text \<open>
  The characters that \<^verbatim>\<open>int()\<close> skips around a literal, among the code points below
  256: the white space of ASCII, the next-line control and the no-break space. The
  separator controls 28 to 31 are not skipped: \<^verbatim>\<open>int\<close> raises on them.
\<close>

definition is_space :: "char \<Rightarrow> bool" where
  "is_space c = ((of_char c :: nat) \<in> {9, 10, 11, 12, 13, 32, 133, 160})"

definition strip :: "string \<Rightarrow> string" where
  "strip s = rev (dropWhile is_space (rev (dropWhile is_space s)))"

text \<open>Digits with single underscores between them: the body of a decimal literal.\<close>

fun digits_us :: "string \<Rightarrow> bool" where
  "digits_us [] = False"
| "digits_us [c] = is_digit c"
| "digits_us (c # d # cs) =
     (is_digit c \<and> (if d = CHR ''_'' then digits_us cs else digits_us (d # cs)))"

text \<open>
  \<^verbatim>\<open>int(s)\<close> in base ten: white space around the literal is dropped, one sign is
  allowed, underscores may separate digits; anything else raises ValueError (None here).
\<close>

definition py_int :: "string \<Rightarrow> int option" where
  "py_int s =
     (let t = strip s;
          neg = (t \<noteq> [] \<and> hd t = CHR ''-'');
          body = (if t \<noteq> [] \<and> (hd t = CHR ''-'' \<or> hd t = CHR ''+'') then tl t else t)
      in if digits_us body
         then Some ((if neg then - 1 else 1) * int (dec_value (filter (\<lambda>c. c \<noteq> CHR ''_'') body)))
         else None)"

text \<open>
  Splitting at every character that satisfies \<open>P\<close>, as \<^verbatim>\<open>re.split\<close> does for a
  one-character class: \<open>n\<close> separators give \<open>n + 1\<close> pieces, empty ones included.
\<close>

fun split_on :: "(char \<Rightarrow> bool) \<Rightarrow> string \<Rightarrow> string list" where
  "split_on P [] = [[]]"
| "split_on P (c # cs) =
     (if P c then [] # split_on P cs
      else (c # hd (split_on P cs)) # tl (split_on P cs))"

text \<open>\<^verbatim>\<open>re.split(r"[\.-]", s)\<close> and \<^verbatim>\<open>re.split("[-.]", s)\<close>: the same character class.\<close>

definition re_split_dot_dash :: "string \<Rightarrow> string list" where
  "re_split_dot_dash s = split_on (\<lambda>c. c = CHR ''.'' \<or> c = CHR ''-'') s"

text \<open>\<^verbatim>\<open>s.split(sep, 1)\<close> for a one-character separator: at most one cut, at the first one.\<close>

definition split_once :: "char \<Rightarrow> string \<Rightarrow> string list" where
  "split_once sep s =
     (case dropWhile (\<lambda>c. c \<noteq> sep) s of
        [] \<Rightarrow> [s]
      | _ # rest \<Rightarrow> [takeWhile (\<lambda>c. c \<noteq> sep) s, rest])"

text \<open>The line boundaries of \<^verbatim>\<open>str.splitlines()\<close> among the code points below 256.\<close>

definition is_linebreak :: "char \<Rightarrow> bool" where
  "is_linebreak c = ((of_char c :: nat) \<in> {10, 11, 12, 13, 28, 29, 30, 133})"

text \<open>
  \<^verbatim>\<open>str.splitlines()\<close>: a carriage return followed by a line feed is one boundary, and
  a boundary at the very end opens no further line.
\<close>

fun splitlines :: "string \<Rightarrow> string list" where
  "splitlines [] = []"
| "splitlines (c # cs) =
     (if is_linebreak c then
        (case cs of
           [] \<Rightarrow> [[]]
         | d # ds \<Rightarrow>
             if c = CHR 0x0D \<and> d = CHR 0x0A then [] # splitlines ds else [] # splitlines cs)
      else (case splitlines cs of [] \<Rightarrow> [[c]] | l # ls \<Rightarrow> (c # l) # ls))"

text \<open>\<^verbatim>\<open>str.lower()\<close> on the code points below 256.\<close>

definition lower_char :: "char \<Rightarrow> char" where
  "lower_char c =
     (let n = (of_char c :: nat)
      in if (65 \<le> n \<and> n \<le> 90) \<or> (192 \<le> n \<and> n \<le> 222 \<and> n \<noteq> 215) then char_of (n + 32) else c)"

definition lower :: "string \<Rightarrow> string" where
  "lower s = map lower_char s"

text \<open>\<^verbatim>\<open>xs[-1]\<close>.\<close>

definition py_last :: "'a list \<Rightarrow> error + 'a" where
  "py_last xs = (if xs = [] then Inl IndexError else Inr (last xs))"


section \<open>The environment\<close>

text \<open>
  What \<^verbatim>\<open>subprocess.run(argv, capture_output=True)\<close> gives: the program could not be
  started (an OSError such as FileNotFoundError), or it ran and left an exit status and
  its standard output. The output is kept as its UTF-8 decoding, None when the bytes
  are not valid UTF-8.
\<close>

datatype proc = NotStarted | Completed int "string option"

text \<open>
  What \<^verbatim>\<open>requests.get(url)\<close> gives: no response at all, or a status code, the body,
  and the reading of the body as a JSON object with string fields (None when it is not
  such a document).
\<close>

datatype response = NoResponse | Response nat string "(string \<times> string) list option"

text \<open>
  The contents of a file: plain data, an archive (its entries by name), or a JSON
  object (its fields in order; the indentation of the text is not modelled).
\<close>

datatype jvalue = JStr string | JInt int

datatype content =
  Data string | ZipFile "(string \<times> content) list" | JsonFile "(string \<times> jvalue) list"

text \<open>
  The environment a run reads: the processes it can start, the web, the environment
  variables, and the LZMA decoder (None when the data are not a valid stream).
\<close>

record env =
  run :: "string list \<Rightarrow> proc"
  http_get :: "string \<Rightarrow> response"
  getenv :: "string \<Rightarrow> string option"
  unxz :: "content \<Rightarrow> string option"

text \<open>
  The state the program changes: the files, by path relative to the directory of the
  scripts (taken to be the working directory too), and the lines printed on standard
  output. A directory exists when a file lies under it, so creating a directory changes
  nothing. Storage faults are not modelled: writing a file always succeeds. The log
  lines of build.py go to standard error and are not modelled.
\<close>

record world =
  files :: "(string \<times> content) list"
  console :: "string list"

definition print :: "string \<Rightarrow> world \<Rightarrow> world" where
  "print line w = w\<lparr>console := console w @ [line]\<rparr>"

definition write_file :: "string \<Rightarrow> content \<Rightarrow> world \<Rightarrow> world" where
  "write_file path text w = w\<lparr>files := AList.update path text (files w)\<rparr>"

definition read_file :: "world \<Rightarrow> string \<Rightarrow> content option" where
  "read_file w path = map_of (files w) path"


section \<open>util.py\<close>

definition strip_revision :: "string \<Rightarrow> string" where
  "strip_revision tag = hd (split_once CHR ''-'' tag)"

definition get_last_github_tag :: "env \<Rightarrow> string \<Rightarrow> error + string" where
  "get_last_github_tag e project_name =
     (case http_get e (''https://api.github.com/repos/'' @ project_name @ ''/releases/latest'') of
        NoResponse \<Rightarrow> Inl ConnectionError
      | Response status body json \<Rightarrow>
          if 400 \<le> status \<and> status < 600 then Inl HTTPError
          else (case json of
                  None \<Rightarrow> Inl JSONDecodeError
                | Some releases \<Rightarrow>
                    (case map_of releases ''tag_name'' of
                       None \<Rightarrow> Inl KeyError
                     | Some last_release \<Rightarrow> Inr last_release)))"

definition get_last_frida_tag :: "env \<Rightarrow> world \<Rightarrow> (error + string) \<times> world" where
  "get_last_frida_tag e w =
     (case get_last_github_tag e ''frida/frida'' of
        Inl err \<Rightarrow> (Inl err, w)
      | Inr last_frida_tag \<Rightarrow> (Inr last_frida_tag, print (''Last frida tag: '' @ last_frida_tag) w))"

text \<open>The sort key of a tag: the integers of its pieces, None when \<^verbatim>\<open>int\<close> raises on one.\<close>

definition tag_key :: "string \<Rightarrow> int list option" where
  "tag_key s = those (map py_int (re_split_dot_dash s))"

text \<open>
  \<^verbatim>\<open>list.sort(key=...)\<close> computes the key of every element first, then sorts stably by
  key; lists of integers compare lexicographically.
\<close>

definition sort_tags :: "string list \<Rightarrow> error + string list" where
  "sort_tags tags =
     (case those (map tag_key tags) of
        None \<Rightarrow> Inl ValueError
      | Some keys \<Rightarrow> Inr (map snd (sort_key fst (zip keys tags))))"

definition exec_git_command :: "env \<Rightarrow> string list \<Rightarrow> error + string" where
  "exec_git_command e command_with_args =
     (case run e (''git'' # command_with_args) of
        NotStarted \<Rightarrow> Inl OSError
      | Completed returncode out \<Rightarrow>
          (case out of None \<Rightarrow> Inl UnicodeDecodeError | Some result \<Rightarrow> Inr result))"

definition get_last_tag :: "env \<Rightarrow> string list \<Rightarrow> error + string" where
  "get_last_tag e filter_args =
     (case exec_git_command e ([''tag'', ''-l''] @ filter_args) of
        Inl err \<Rightarrow> Inl err
      | Inr out \<Rightarrow>
          (let tags = splitlines out
           in if length tags < 1 then Inr ''''
              else (case sort_tags tags of
                      Inl err \<Rightarrow> Inl err
                    | Inr sorted_tags \<Rightarrow> py_last sorted_tags)))"

definition get_last_project_tag :: "env \<Rightarrow> world \<Rightarrow> (error + string) \<times> world" where
  "get_last_project_tag e w =
     (case get_last_tag e [] of
        Inl err \<Rightarrow> (Inl err, w)
      | Inr last_tag \<Rightarrow> (Inr last_tag, print (''Last project tag: '' @ last_tag) w))"

text \<open>
  The loop of \<^verbatim>\<open>get_next_revision\<close>, from the counter \<open>i\<close> on. It has no bound in the
  source, so it is a partial function: None is the run that never leaves the loop.
\<close>

partial_function (option) next_revision_from :: "env \<Rightarrow> string \<Rightarrow> int \<Rightarrow> (error + string) option" where
  "next_revision_from e current_tag i =
     (case get_last_tag e [current_tag @ ''-'' @ py_str i] of
        Inl err \<Rightarrow> Some (Inl err)
      | Inr found \<Rightarrow>
          if found = '''' then Some (Inr (current_tag @ ''-'' @ py_str i))
          else next_revision_from e current_tag (i + 1))"

definition get_next_revision :: "env \<Rightarrow> string \<Rightarrow> (error + string) option" where
  "get_next_revision e current_tag = next_revision_from e current_tag 1"


section \<open>build.py\<close>

definition PATH_BASE_MODULE :: string where "PATH_BASE_MODULE = ''base''"
definition PATH_BUILD :: string where "PATH_BUILD = ''build''"
definition PATH_BUILD_TMP :: string where "PATH_BUILD_TMP = ''build/tmp''"
definition PATH_DOWNLOADS :: string where "PATH_DOWNLOADS = ''downloads''"

definition joinpath :: "string \<Rightarrow> string \<Rightarrow> string" where
  "joinpath dir name = dir @ ''/'' @ name"

text \<open>A path lies under a directory when it continues the directory's path after a slash.\<close>

definition under :: "string \<Rightarrow> string \<Rightarrow> bool" where
  "under dir path = (take (length dir + 1) path = dir @ ''/'')"

definition path_exists :: "world \<Rightarrow> string \<Rightarrow> bool" where
  "path_exists w path =
     (map_of (files w) path \<noteq> None \<or> (\<exists>q \<in> set (map fst (files w)). under path q))"

text \<open>The last component of a path.\<close>

definition basename :: "string \<Rightarrow> string" where
  "basename path = rev (takeWhile (\<lambda>c. c \<noteq> CHR ''/'') (rev path))"

text \<open>\<^verbatim>\<open>shutil.rmtree(dir)\<close>.\<close>

definition rmtree :: "string \<Rightarrow> world \<Rightarrow> world" where
  "rmtree dir w = w\<lparr>files := filter (\<lambda>(p, c). \<not> under dir p) (files w)\<rparr>"

text \<open>
  \<^verbatim>\<open>shutil.copytree(src, dst)\<close>: it raises when the source is missing or the
  destination exists.
\<close>

definition copytree :: "string \<Rightarrow> string \<Rightarrow> world \<Rightarrow> error + world" where
  "copytree src dst w =
     (if \<not> (\<exists>q \<in> set (map fst (files w)). under src q) \<or> path_exists w dst then Inl OSError
      else Inr (w\<lparr>files := files w @
                  map (\<lambda>(p, c). (dst @ drop (length src) p, c))
                      (filter (\<lambda>(p, c). under src p) (files w))\<rparr>))"

definition download_file :: "env \<Rightarrow> string \<Rightarrow> string \<Rightarrow> world \<Rightarrow> error + world" where
  "download_file e url path w =
     (if path_exists w path then Inr w
      else (case http_get e url of
              NoResponse \<Rightarrow> Inl ConnectionError
            | Response status body json \<Rightarrow>
                if 400 \<le> status \<and> status < 600 then Inl HTTPError
                else Inr (write_file path (Data body) w)))"

definition extract_file :: "env \<Rightarrow> string \<Rightarrow> string \<Rightarrow> world \<Rightarrow> error + world" where
  "extract_file e archive_path dest_path w =
     (case read_file w archive_path of
        None \<Rightarrow> Inl OSError
      | Some archive \<Rightarrow>
          (case unxz e archive of
             None \<Rightarrow> Inl LZMAError
           | Some file_content \<Rightarrow> Inr (write_file dest_path (Data file_content) w)))"

definition generate_version_code :: "string \<Rightarrow> error + int" where
  "generate_version_code project_tag =
     (case those (map py_int (re_split_dot_dash project_tag)) of
        None \<Rightarrow> Inl ValueError
      | Some parts \<Rightarrow>
          (case py_int (concat (map format_02d parts)) of
             None \<Rightarrow> Inl ValueError
           | Some version_code \<Rightarrow> Inr version_code))"

definition create_module_prop :: "string \<Rightarrow> string \<Rightarrow> world \<Rightarrow> error + world" where
  "create_module_prop path project_tag w =
     (case generate_version_code project_tag of
        Inl err \<Rightarrow> Inl err
      | Inr version_code \<Rightarrow>
          Inr (write_file (joinpath path ''module.prop'')
                 (Data (''id=magisk-frida\<newline>name=MagiskFrida\<newline>version='' @ project_tag
                        @ ''\<newline>versionCode='' @ py_str version_code
                        @ ''\<newline>author=ViRb3 & enovella\<newline>updateJson=https://github.com/ViRb3/magisk-frida/releases/latest/download/updater.json\<newline>description=Run frida-server on boot''))
                 w))"

text \<open>
  \<^verbatim>\<open>create_module\<close>, \<^verbatim>\<open>fill_module\<close> and \<^verbatim>\<open>do_build\<close> change files before they can
  fail, and the source has no handler that undoes the changes: they return the exception
  (if any) together with the world as it is left.
\<close>

definition create_module :: "string \<Rightarrow> world \<Rightarrow> error option \<times> world" where
  "create_module project_tag w =
     (let w1 = (if path_exists w PATH_BUILD_TMP then rmtree PATH_BUILD_TMP w else w)
      in case copytree PATH_BASE_MODULE PATH_BUILD_TMP w1 of
           Inl err \<Rightarrow> (Some err, w1)
         | Inr w2 \<Rightarrow>
             (case create_module_prop PATH_BUILD_TMP project_tag w2 of
                Inl err \<Rightarrow> (Some err, w2)
              | Inr w3 \<Rightarrow> (None, w3)))"

text \<open>The path of the downloaded archive and of the extracted server of an architecture.\<close>

definition frida_server_path :: "string \<Rightarrow> string \<Rightarrow> string" where
  "frida_server_path frida_tag arch =
     joinpath PATH_DOWNLOADS (''frida-server-'' @ frida_tag @ ''-android-'' @ arch @ ''.xz'')"

definition frida_server_dest :: "string \<Rightarrow> string" where
  "frida_server_dest arch = joinpath (joinpath PATH_BUILD_TMP ''files'') (''frida-server-'' @ arch)"

definition fill_module :: "env \<Rightarrow> string \<Rightarrow> string \<Rightarrow> string \<Rightarrow> world \<Rightarrow> error option \<times> world" where
  "fill_module e arch frida_tag project_tag w =
     (let frida_download_url = ''https://github.com/frida/frida/releases/download/'' @ frida_tag @ ''/'';
          frida_server = ''frida-server-'' @ frida_tag @ ''-android-'' @ arch @ ''.xz''
      in case download_file e (frida_download_url @ frida_server) (frida_server_path frida_tag arch) w of
           Inl err \<Rightarrow> (Some err, w)
         | Inr w1 \<Rightarrow>
             (case extract_file e (frida_server_path frida_tag arch) (frida_server_dest arch) w1 of
                Inl err \<Rightarrow> (Some err, w1)
              | Inr w2 \<Rightarrow> (None, w2)))"

definition create_updater_json :: "string \<Rightarrow> world \<Rightarrow> error + world" where
  "create_updater_json project_tag w =
     (case generate_version_code project_tag of
        Inl err \<Rightarrow> Inl err
      | Inr version_code \<Rightarrow>
          Inr (write_file (joinpath PATH_BUILD ''updater.json'')
                 (JsonFile
                    [(''version'', JStr project_tag),
                     (''versionCode'', JInt version_code),
                     (''zipUrl'', JStr (''https://github.com/ViRb3/magisk-frida/releases/download/''
                                       @ project_tag @ ''/MagiskFrida-'' @ project_tag @ ''.zip'')),
                     (''changelog'', JStr ''https://raw.githubusercontent.com/ViRb3/magisk-frida/master/CHANGELOG.md'')])
                 w))"

definition module_zip :: "string \<Rightarrow> string" where
  "module_zip project_tag = joinpath PATH_BUILD (''MagiskFrida-'' @ project_tag @ ''.zip'')"

definition package_module :: "string \<Rightarrow> world \<Rightarrow> world" where
  "package_module project_tag w =
     rmtree PATH_BUILD_TMP
       (write_file (module_zip project_tag)
          (ZipFile
             (map (\<lambda>(p, c). (drop (length PATH_BUILD_TMP + 1) p, c))
                (filter (\<lambda>(p, c). under PATH_BUILD_TMP p
                                   \<and> basename p \<noteq> ''placeholder'' \<and> basename p \<noteq> ''.gitkeep'')
                   (files w))))
          w)"

definition archs :: "string list" where
  "archs = [''arm'', ''arm64'', ''x86'', ''x86_64'']"

text \<open>
  The tasks of the process pool. Each task reads and writes only the paths that carry
  its own architecture, and the pool runs every submitted task to its end whether or
  not another one failed; so the tasks are run here one after the other, in the order
  \<open>order\<close> in which they complete (a rearrangement of \<open>archs\<close>), each giving its
  exception (or None).
\<close>

fun run_tasks :: "env \<Rightarrow> string list \<Rightarrow> string \<Rightarrow> string \<Rightarrow> world
                  \<Rightarrow> (string \<times> error option) list \<times> world" where
  "run_tasks e [] frida_tag project_tag w = ([], w)"
| "run_tasks e (arch # order) frida_tag project_tag w =
     (let (r, w1) = fill_module e arch frida_tag project_tag w;
          (rs, w2) = run_tasks e order frida_tag project_tag w1
      in ((arch, r) # rs, w2))"

text \<open>
  The loop over \<^verbatim>\<open>as_completed(futures)\<close>: the first exception met, in completion
  order, is raised.
\<close>

fun first_exception :: "(string \<times> error option) list \<Rightarrow> error option" where
  "first_exception [] = None"
| "first_exception ((arch, None) # rs) = first_exception rs"
| "first_exception ((arch, Some err) # rs) = Some err"

definition do_build :: "env \<Rightarrow> string list \<Rightarrow> string \<Rightarrow> string \<Rightarrow> world \<Rightarrow> (error + unit) \<times> world" where
  "do_build e order frida_tag project_tag w =
     (case create_module project_tag w of
        (Some err, w1) \<Rightarrow> (Inl err, w1)
      | (None, w1) \<Rightarrow>
          (let (futures, w2) = run_tasks e order frida_tag project_tag w1
           in case first_exception futures of
                Some err \<Rightarrow> (Inl err, w2)
              | None \<Rightarrow>
                  (let w3 = package_module project_tag w2
                   in case create_updater_json project_tag w3 of
                        Inl err \<Rightarrow> (Inl err, w3)
                      | Inr w4 \<Rightarrow> (Inr (), w4))))"


section \<open>main.py\<close>

text \<open>The values \<^verbatim>\<open>main\<close> has computed when it reaches the build.\<close>

record decision =
  needs_update :: bool
  new_project_tag :: string

text \<open>
  Lines 14 to 47 of \<^verbatim>\<open>main\<close>, for given values of the two tags and of the flag: the
  release decision. None is the run in which \<^verbatim>\<open>get_next_revision\<close> never returns.
\<close>

definition decide :: "env \<Rightarrow> string \<Rightarrow> string \<Rightarrow> bool \<Rightarrow> world \<Rightarrow> ((error + decision) \<times> world) option" where
  "decide e last_frida_tag last_project_tag force_release w =
     (let needs = (last_frida_tag \<noteq> strip_revision last_project_tag)
      in if needs \<or> force_release then
           (case get_next_revision e last_frida_tag of
              None \<Rightarrow> None
            | Some (Inl err) \<Rightarrow> Some (Inl err, w)
            | Some (Inr new_tag) \<Rightarrow>
                Some (Inr \<lparr>needs_update = needs, new_project_tag = new_tag\<rparr>,
                      write_file ''NEW_TAG.txt'' (Data new_tag)
                        (print (if needs
                                then ''Reason: Frida updated from '' @ strip_revision last_project_tag
                                     @ '' to '' @ last_frida_tag
                                else ''Reason: Force release requested via GitHub Actions'')
                           (print (''Update needed to '' @ new_tag) w))))
         else Some (Inr \<lparr>needs_update = needs, new_project_tag = ''0''\<rparr>, print ''All good!'' w))"

definition force_release_flag :: "env \<Rightarrow> bool" where
  "force_release_flag e =
     (lower (case getenv e ''FORCE_RELEASE'' of None \<Rightarrow> ''false'' | Some v \<Rightarrow> v) = ''true'')"

definition main :: "env \<Rightarrow> string list \<Rightarrow> world \<Rightarrow> ((error + unit) \<times> world) option" where
  "main e order w =
     (case get_last_frida_tag e w of
        (Inl err, w1) \<Rightarrow> Some (Inl err, w1)
      | (Inr last_frida_tag, w1) \<Rightarrow>
          (case get_last_project_tag e w1 of
             (Inl err, w2) \<Rightarrow> Some (Inl err, w2)
           | (Inr last_project_tag, w2) \<Rightarrow>
               (case decide e last_frida_tag last_project_tag (force_release_flag e) w2 of
                  None \<Rightarrow> None
                | Some (Inl err, w3) \<Rightarrow> Some (Inl err, w3)
                | Some (Inr d, w3) \<Rightarrow> Some (do_build e order last_frida_tag (new_project_tag d) w3))))"


section \<open>A repository and its tags\<close>

text \<open>
  The git of a working repository whose tags are \<open>repo_tags\<close>, in the order in which
  git lists them: \<^verbatim>\<open>git tag -l\<close> prints every tag on a line of its own, and with
  patterns the tags that match one of them. A pattern free of the wildcard characters
  of git selects the tag of that very name, which is all this model knows of patterns.
  Any other command line is answered with a usage error.
\<close>

definition git_tag_list :: "string list \<Rightarrow> string list \<Rightarrow> proc" where
  "git_tag_list repo_tags argv =
     (if take 3 argv = [''git'', ''tag'', ''-l'']
      then Completed 0
             (Some (concat (map (\<lambda>t. t @ ''\<newline>'')
                (filter (\<lambda>t. drop 3 argv = [] \<or> t \<in> set (drop 3 argv)) repo_tags))))
      else Completed 129 (Some ''''))"

text \<open>The git of a directory that is no repository: exit status 128, nothing on standard output.\<close>

definition git_not_a_repository :: "string list \<Rightarrow> proc" where
  "git_not_a_repository argv = Completed 128 (Some '''')"

definition offline :: "string \<Rightarrow> response" where
  "offline url = NoResponse"

definition no_variables :: "string \<Rightarrow> string option" where
  "no_variables name = None"

definition no_decoder :: "content \<Rightarrow> string option" where
  "no_decoder c = None"

text \<open>A machine without git: the program cannot be started.\<close>

definition git_missing :: "string list \<Rightarrow> proc" where
  "git_missing argv = NotStarted"

text \<open>A release index that answers every request with the latest tag \<open>tag\<close>.\<close>

definition github_with :: "string \<Rightarrow> string \<Rightarrow> response" where
  "github_with tag url = Response 200 '''' (Some [(''tag_name'', tag)])"

text \<open>The environment of a run in a repository with the tags \<open>repo_tags\<close>, off line.\<close>

definition repo_env :: "string list \<Rightarrow> env" where
  "repo_env repo_tags =
     \<lparr>run = git_tag_list repo_tags, http_get = offline, getenv = no_variables, unxz = no_decoder\<rparr>"

text \<open>The environment of a run outside any repository.\<close>

definition no_repo_env :: env where
  "no_repo_env =
     \<lparr>run = git_not_a_repository, http_get = offline, getenv = no_variables, unxz = no_decoder\<rparr>"

text \<open>The environment of a run on a machine without git, with 16.1.4 the latest release.\<close>

definition no_git_env :: env where
  "no_git_env =
     \<lparr>run = git_missing, http_get = github_with ''16.1.4'', getenv = no_variables, unxz = no_decoder\<rparr>"

text \<open>
  A run off line whose download cache holds the archive of one architecture: a template
  with one file, the cached archive for arm, and a decoder that accepts every archive.
\<close>

definition any_decoder :: "content \<Rightarrow> string option" where
  "any_decoder c = Some ''elf''"

definition offline_env :: env where
  "offline_env =
     \<lparr>run = git_tag_list [], http_get = offline, getenv = no_variables, unxz = any_decoder\<rparr>"

definition cached_world :: world where
  "cached_world =
     \<lparr>files = [(''base/service.sh'', Data ''sh''),
               (''downloads/frida-server-16.1.4-android-arm.xz'', Data ''xz'')],
      console = []\<rparr>"

text \<open>
  A run in which every download is answered with data that are no archive: a template
  with one file, an empty cache, and a decoder that rejects everything.
\<close>

definition corrupt_download :: "string \<Rightarrow> response" where
  "corrupt_download url = Response 200 ''bad'' None"

definition corrupt_env :: env where
  "corrupt_env =
     \<lparr>run = git_tag_list [], http_get = corrupt_download, getenv = no_variables, unxz = no_decoder\<rparr>"

definition template_world :: world where
  "template_world = \<lparr>files = [(''base/service.sh'', Data ''sh'')], console = []\<rparr>"

definition empty_world :: world where
  "empty_world = \<lparr>files = [], console = []\<rparr>"

text \<open>The tag \<open>base-k\<close> that \<^verbatim>\<open>get_next_revision\<close> probes at the counter \<open>k\<close>.\<close>

definition revision :: "string \<Rightarrow> nat \<Rightarrow> string" where
  "revision base k = base @ ''-'' @ py_str (int k)"

text \<open>The tags \<open>base-1\<close>, ..., \<open>base-n\<close>.\<close>

definition revisions :: "string \<Rightarrow> nat \<Rightarrow> string list" where
  "revisions base n = map (revision base) [1..<Suc n]"


section \<open>The specification's vocabulary\<close>

text \<open>A numeric component: a non-empty string of decimal digits.\<close>

definition numeric :: "string \<Rightarrow> bool" where
  "numeric p = (p \<noteq> [] \<and> (\<forall>c \<in> set p. is_digit c))"

text \<open>A version tag all of whose dot- or dash-separated components are numeric.\<close>

definition numeric_tag :: "string \<Rightarrow> bool" where
  "numeric_tag s = (\<forall>p \<in> set (re_split_dot_dash s). numeric p)"

text \<open>The numbers a numeric tag stands for.\<close>

definition components :: "string \<Rightarrow> nat list" where
  "components s = map dec_value (re_split_dot_dash s)"

text \<open>
  Numeric comparison of components from left to right: the first differing component
  decides, and a tag that runs out first comes first.
\<close>

fun numeric_le :: "nat list \<Rightarrow> nat list \<Rightarrow> bool" where
  "numeric_le [] ys = True"
| "numeric_le (x # xs) [] = False"
| "numeric_le (x # xs) (y # ys) = (x < y \<or> (x = y \<and> numeric_le xs ys))"

text \<open>A decimal numeral padded with zeros on the left to two digits.\<close>

definition zero_pad2 :: "nat \<Rightarrow> string" where
  "zero_pad2 n = (if n < 10 then CHR ''0'' # dec_digits n else dec_digits n)"

text \<open>
  The version code in the specification's words: split, pad every component to two
  digits, concatenate, read the digits as a number.
\<close>

definition version_code_spec :: "string \<Rightarrow> nat" where
  "version_code_spec s = dec_value (concat (map zero_pad2 (components s)))"

section \<open>Decimal numerals\<close>

lemma lt10_cases: "d < (10::nat) \<Longrightarrow> d = 0 \<or> d = 1 \<or> d = 2 \<or> d = 3 \<or> d = 4 \<or> d = 5 \<or> d = 6 \<or> d = 7 \<or> d = 8 \<or> d = 9"
  by arith

lemma digit_char_is_digit: "d < 10 \<Longrightarrow> is_digit (digit_char d)"
  using lt10_cases[of d] by (auto simp: digit_char_def is_digit_def)

lemma digit_val_digit_char: "d < 10 \<Longrightarrow> digit_val (digit_char d) = d"
  using lt10_cases[of d] by (auto simp: digit_char_def digit_val_def)

lemma is_digit_cases: "is_digit c \<Longrightarrow> c = CHR ''0'' \<or> c = CHR ''1'' \<or> c = CHR ''2'' \<or> c = CHR ''3'' \<or> c = CHR ''4''
   \<or> c = CHR ''5'' \<or> c = CHR ''6'' \<or> c = CHR ''7'' \<or> c = CHR ''8'' \<or> c = CHR ''9''"
  by (auto simp: is_digit_def)

lemma digit_not_space: "is_digit c \<Longrightarrow> \<not> is_space c"
  using is_digit_cases[of c] by (auto simp: is_space_def)

lemma digit_not_linebreak: "is_digit c \<Longrightarrow> \<not> is_linebreak c"
  using is_digit_cases[of c] by (auto simp: is_linebreak_def)

lemma digit_not_special: "is_digit c \<Longrightarrow> c \<noteq> CHR ''-'' \<and> c \<noteq> CHR ''+'' \<and> c \<noteq> CHR ''_'' \<and> c \<noteq> CHR ''.''"
  using is_digit_cases[of c] by auto

lemma dec_value_snoc: "dec_value (ds @ [c]) = 10 * dec_value ds + digit_val c"
  by (simp add: dec_value_def)

lemma dec_digits_small: "n < 10 \<Longrightarrow> dec_digits n = [digit_char n]"
  by (simp add: dec_digits.simps[of n])

lemma dec_digits_large: "\<not> n < 10 \<Longrightarrow> dec_digits n = dec_digits (n div 10) @ [digit_char (n mod 10)]"
  by (simp add: dec_digits.simps[of n])

lemma dec_digits_digits: "c \<in> set (dec_digits n) \<Longrightarrow> is_digit c"
proof (induction n rule: dec_digits.induct)
  case (1 n)
  show ?case
  proof (cases "n < 10")
    case True
    then show ?thesis using 1(2) by (simp add: dec_digits_small digit_char_is_digit)
  next
    case False
    then show ?thesis using 1 by (auto simp: dec_digits_large[of n] digit_char_is_digit)
  qed
qed

lemma dec_digits_nonempty: "dec_digits n \<noteq> []"
  by (cases "n < 10") (simp_all add: dec_digits_small dec_digits_large)

lemma dec_value_dec_digits: "dec_value (dec_digits n) = n"
proof (induction n rule: dec_digits.induct)
  case (1 n)
  show ?case
  proof (cases "n < 10")
    case True
    then show ?thesis by (simp add: dec_digits_small dec_value_def digit_val_digit_char)
  next
    case False
    then have "dec_value (dec_digits (n div 10)) = n div 10" using 1 by simp
    then show ?thesis using False
      by (simp add: dec_digits_large[of n] dec_value_snoc digit_val_digit_char)
  qed
qed

lemma dec_digits_inj: "dec_digits m = dec_digits n \<Longrightarrow> m = n"
  by (metis dec_value_dec_digits)

lemma length_dec_digits_large: "\<not> n < 10 \<Longrightarrow> 2 \<le> length (dec_digits n)"
proof -
  assume a: "\<not> n < 10"
  have "length (dec_digits (n div 10)) \<ge> 1"
    using dec_digits_nonempty[of "n div 10"] by (cases "dec_digits (n div 10)") simp_all
  then show ?thesis using a by (simp add: dec_digits_large[of n])
qed

lemma format_02d_nat: "format_02d (int n) = zero_pad2 n"
proof (cases "n < 10")
  case True
  then show ?thesis by (simp add: format_02d_def zero_pad2_def dec_digits_small numeral_2_eq_2)
next
  case False
  then show ?thesis
    using length_dec_digits_large[of n] by (simp add: format_02d_def zero_pad2_def)
qed

section \<open>Revisions\<close>

lemma strip_revision_takeWhile: "strip_revision tag = takeWhile (\<lambda>c. c \<noteq> CHR ''-'') tag"
proof (cases "dropWhile (\<lambda>c. c \<noteq> CHR ''-'') tag")
  case Nil
  have "takeWhile (\<lambda>c. c \<noteq> CHR ''-'') tag @ dropWhile (\<lambda>c. c \<noteq> CHR ''-'') tag = tag"
    by (rule takeWhile_dropWhile_id)
  then have eq: "takeWhile (\<lambda>c. c \<noteq> CHR ''-'') tag = tag"
    unfolding Nil by simp
  show ?thesis
    unfolding strip_revision_def split_once_def Nil by (simp only: list.case list.sel eq)
next
  case (Cons a rest)
  show ?thesis
    unfolding strip_revision_def split_once_def Cons by simp
qed

lemma strip_revision_empty: "strip_revision '''' = ''''"
  unfolding strip_revision_takeWhile by simp

text \<open>
  C9. Stripping the revision twice gives what stripping it once gives, for every tag;
  in particular for every version string of dot- or dash-separated non-negative integers.
\<close>

theorem strip_revision_idempotent: "strip_revision (strip_revision v) = strip_revision v"
  unfolding strip_revision_takeWhile by (rule takeWhile_idem)

section \<open>Parsing and sorting numeric tags\<close>

lemma numeric_digits_us: "numeric p \<Longrightarrow> digits_us p"
proof (induction p rule: digits_us.induct)
  case 1
  then show ?case by (simp add: numeric_def)
next
  case (2 c)
  then show ?case by (simp add: numeric_def)
next
  case (3 c d cs)
  have d: "is_digit d" and c: "is_digit c" using 3(3) by (simp_all add: numeric_def)
  have "d \<noteq> CHR ''_''" using digit_not_special[OF d] by simp
  moreover have "numeric (d # cs)" using 3(3) by (simp add: numeric_def)
  ultimately show ?case using 3(2) c by simp
qed

lemma numeric_strip: assumes "numeric p" shows "strip p = p"
proof -
  obtain c cs where p: "p = c # cs" using assms by (cases p) (simp_all add: numeric_def)
  have "\<not> is_space c" using assms p by (simp add: numeric_def digit_not_space)
  then have 1: "dropWhile is_space p = p" by (simp add: p)
  have "rev p \<noteq> []" using p by simp
  then obtain r rs where rp: "rev p = r # rs" by (cases "rev p") simp_all
  have "r \<in> set p" by (metis list.set_intros(1) rp set_rev)
  then have "\<not> is_space r" using assms by (simp add: numeric_def digit_not_space)
  then have 2: "dropWhile is_space (rev p) = rev p" by (simp add: rp)
  show ?thesis by (simp add: strip_def 1 2)
qed

lemma numeric_filter: "numeric p \<Longrightarrow> filter (\<lambda>c. c \<noteq> CHR ''_'') p = p"
  using digit_not_special by (simp add: numeric_def filter_id_conv)

lemma py_int_numeric: assumes "numeric p" shows "py_int p = Some (int (dec_value p))"
proof -
  obtain c cs where p: "p = c # cs" using assms by (cases p) (simp_all add: numeric_def)
  have "is_digit c" using assms p by (simp add: numeric_def)
  then have hd: "hd p \<noteq> CHR ''-''" "hd p \<noteq> CHR ''+''" using digit_not_special[of c] p by simp_all
  show ?thesis
    by (simp add: py_int_def numeric_strip[OF assms] hd numeric_digits_us[OF assms] numeric_filter[OF assms])
qed

lemma those_map_Some: "(\<And>x. x \<in> set xs \<Longrightarrow> f x = Some (g x)) \<Longrightarrow> those (map f xs) = Some (map g xs)"
  by (induction xs) simp_all

lemma tag_key_numeric: "numeric_tag s \<Longrightarrow> tag_key s = Some (map int (components s))"
proof -
  assume a: "numeric_tag s"
  have "those (map py_int (re_split_dot_dash s)) = Some (map (\<lambda>p. int (dec_value p)) (re_split_dot_dash s))"
    by (rule those_map_Some) (use a in \<open>simp add: numeric_tag_def py_int_numeric\<close>)
  then show ?thesis by (simp add: tag_key_def components_def comp_def)
qed

lemma insort_key_decorate:
  "insort_key fst (f x, x) (map (\<lambda>y. (f y, y)) ys) = map (\<lambda>y. (f y, y)) (insort_key f x ys)"
  by (induction ys) simp_all

lemma sort_key_decorate:
  "sort_key fst (map (\<lambda>y. (f y, y)) xs) = map (\<lambda>y. (f y, y)) (sort_key f xs)"
  by (induction xs) (simp_all add: insort_key_decorate)

lemma zip_map_self: "zip (map f xs) xs = map (\<lambda>y. (f y, y)) xs"
  by (induction xs) simp_all

lemma sort_tags_numeric_eq:
  assumes "\<And>t. t \<in> set tags \<Longrightarrow> numeric_tag t"
  shows "sort_tags tags = Inr (sort_key (\<lambda>t. map int (components t)) tags)"
proof -
  have "those (map tag_key tags) = Some (map (\<lambda>t. map int (components t)) tags)"
    by (rule those_map_Some) (simp add: assms tag_key_numeric)
  then show ?thesis
    by (simp add: sort_tags_def zip_map_self sort_key_decorate comp_def)
qed

lemma numeric_le_iff: "numeric_le xs ys \<longleftrightarrow> map int xs \<le> map int ys"
  by (induction xs ys rule: numeric_le.induct) simp_all

section \<open>Sorting and the version code\<close>

lemma split_on_nonempty: "split_on P s \<noteq> []"
  by (induction s) simp_all

lemma zero_pad2_numeric: "numeric (zero_pad2 n)"
  using dec_digits_digits[of _ n] dec_digits_nonempty[of n]
  by (auto simp: numeric_def zero_pad2_def is_digit_def)

lemma numeric_concat: "ps \<noteq> [] \<Longrightarrow> (\<And>p. p \<in> set ps \<Longrightarrow> numeric p) \<Longrightarrow> numeric (concat ps)"
  by (cases ps) (auto simp: numeric_def)

text \<open>
  C4. For every list of tags whose dot- or dash-separated components are all numeric,
  \<^verbatim>\<open>sort_tags\<close> returns a rearrangement of the list in which the tags stand in
  numeric order of their components, compared from left to right. The witness is the
  list 1.2, 1.10, 1.9, which sorts to 1.2, 1.9, 1.10 although the string 1.10 comes
  before the string 1.9 in the order of their characters.
\<close>

theorem sort_tags_numeric_order:
  assumes "\<forall>t \<in> set tags. numeric_tag t"
  shows "\<exists>sorted_tags. sort_tags tags = Inr sorted_tags \<and> mset sorted_tags = mset tags
           \<and> sorted_wrt (\<lambda>a b. numeric_le (components a) (components b)) sorted_tags"
proof -
  let ?key = "\<lambda>t. map int (components t)"
  have eq: "sort_tags tags = Inr (sort_key ?key tags)"
    by (rule sort_tags_numeric_eq) (use assms in simp)
  have "sorted (map ?key (sort_key ?key tags))" by (rule sorted_sort_key)
  then have "sorted_wrt (\<lambda>a b. ?key a \<le> ?key b) (sort_key ?key tags)"
    by (simp add: sorted_map)
  then have "sorted_wrt (\<lambda>a b. numeric_le (components a) (components b)) (sort_key ?key tags)"
    by (simp add: numeric_le_iff)
  moreover have "mset (sort_key ?key tags) = mset tags" by simp
  ultimately show ?thesis using eq by blast
qed

theorem sort_tags_numeric_order_witness:
  "numeric_tag ''1.2'' \<and> numeric_tag ''1.10'' \<and> numeric_tag ''1.9''
   \<and> sort_tags [''1.2'', ''1.10'', ''1.9''] = Inr [''1.2'', ''1.9'', ''1.10'']
   \<and> sorted_wrt (\<lambda>a b. numeric_le (components a) (components b)) [''1.2'', ''1.9'', ''1.10'']
   \<and> (''1.10'', ''1.9'') \<in> lexord {(a, b). (of_char a :: nat) < of_char b}"
proof -
  have h: "\<forall>t \<in> set [''1.2'', ''1.10'', ''1.9'']. numeric_tag t"
    by (simp add: numeric_tag_def numeric_def re_split_dot_dash_def is_digit_def)
  have e: "sort_tags [''1.2'', ''1.10'', ''1.9''] = Inr [''1.2'', ''1.9'', ''1.10'']"
    by (simp add: sort_tags_def tag_key_def re_split_dot_dash_def py_int_def strip_def
          is_space_def is_digit_def dec_value_def digit_val_def)
  have l: "(''1.10'', ''1.9'') \<in> lexord {(a, b). (of_char a :: nat) < of_char b}"
    by simp
  from sort_tags_numeric_order[OF h] e have
    "sorted_wrt (\<lambda>a b. numeric_le (components a) (components b)) [''1.2'', ''1.9'', ''1.10'']"
    by auto
  with h e l show ?thesis by simp
qed

text \<open>
  C5. For every version string whose dot- or dash-separated components are all numeric,
  \<^verbatim>\<open>generate_version_code\<close> returns the number read from the concatenation of the
  components, each taken as a number and written with at least two digits. The witness
  gives 160104 for 16.1.4 and, for 1.2.33, the number read from 010233.
\<close>

theorem generate_version_code_numeric:
  assumes "numeric_tag s"
  shows "generate_version_code s = Inr (int (version_code_spec s))"
proof -
  let ?parts = "re_split_dot_dash s"
  have 1: "those (map py_int ?parts) = Some (map (\<lambda>p. int (dec_value p)) ?parts)"
    by (rule those_map_Some) (use assms in \<open>simp add: numeric_tag_def py_int_numeric\<close>)
  have 2: "concat (map format_02d (map (\<lambda>p. int (dec_value p)) ?parts))
           = concat (map zero_pad2 (components s))"
    by (simp add: components_def comp_def format_02d_nat)
  have "components s \<noteq> []"
    by (simp add: components_def re_split_dot_dash_def split_on_nonempty)
  then have "numeric (concat (map zero_pad2 (components s)))"
    by (intro numeric_concat) (auto simp: zero_pad2_numeric)
  then have 3: "py_int (concat (map zero_pad2 (components s))) = Some (int (version_code_spec s))"
    by (simp add: py_int_numeric version_code_spec_def)
  show ?thesis by (simp only: generate_version_code_def 1 2 3 option.case)
qed

theorem generate_version_code_numeric_witness:
  "numeric_tag ''16.1.4'' \<and> generate_version_code ''16.1.4'' = Inr 160104
   \<and> numeric_tag ''1.2.33'' \<and> generate_version_code ''1.2.33'' = Inr 10233
   \<and> dec_value ''010233'' = 10233"
proof -
  have a: "numeric_tag ''16.1.4''" and b: "numeric_tag ''1.2.33''"
    by (simp_all add: numeric_tag_def numeric_def re_split_dot_dash_def is_digit_def)
  have va: "version_code_spec ''16.1.4'' = 160104"
    by (simp add: version_code_spec_def components_def re_split_dot_dash_def zero_pad2_def
          dec_digits.simps digit_char_def dec_value_def digit_val_def)
  have vb: "version_code_spec ''1.2.33'' = 10233"
    by (simp add: version_code_spec_def components_def re_split_dot_dash_def zero_pad2_def
          dec_digits.simps digit_char_def dec_value_def digit_val_def)
  have c: "dec_value ''010233'' = 10233" by (simp add: dec_value_def digit_val_def)
  show ?thesis
    using generate_version_code_numeric[OF a] generate_version_code_numeric[OF b] a b va vb c
    by simp
qed

section \<open>Revision tags and lines of output\<close>

lemma split_on_append_sep: "P sep \<Longrightarrow> split_on P (xs @ sep # ys) = split_on P xs @ split_on P ys"
proof (induction xs)
  case Nil
  then show ?case by simp
next
  case (Cons c xs)
  then show ?case using split_on_nonempty[of P xs] by (cases "split_on P xs") auto
qed

lemma split_on_none: "(\<And>c. c \<in> set ds \<Longrightarrow> \<not> P c) \<Longrightarrow> split_on P ds = [ds]"
  by (induction ds) simp_all

lemma split_on_chars: "c \<in> set s \<Longrightarrow> P c \<or> (\<exists>p \<in> set (split_on P s). c \<in> set p)"
proof (induction s)
  case Nil
  then show ?case by simp
next
  case (Cons a s)
  then show ?case using split_on_nonempty[of P s] by (cases "split_on P s") auto
qed

lemma py_str_nat: "py_str (int k) = dec_digits k"
  by (simp add: py_str_def)

lemma numeric_dec_digits: "numeric (dec_digits k)"
  using dec_digits_digits[of _ k] dec_digits_nonempty[of k] by (auto simp: numeric_def)

lemma re_split_revision:
  "re_split_dot_dash (revision base k) = re_split_dot_dash base @ [dec_digits k]"
proof -
  have "split_on (\<lambda>c. c = CHR ''.'' \<or> c = CHR ''-'') (dec_digits k) = [dec_digits k]"
    by (rule split_on_none) (use dec_digits_digits[of _ k] digit_not_special in blast)
  then show ?thesis
    by (simp add: re_split_dot_dash_def revision_def py_str_nat split_on_append_sep)
qed

lemma numeric_tag_revision: "numeric_tag base \<Longrightarrow> numeric_tag (revision base k)"
  by (simp add: numeric_tag_def re_split_revision numeric_dec_digits)

lemma numeric_tag_no_linebreak: "numeric_tag s \<Longrightarrow> c \<in> set s \<Longrightarrow> \<not> is_linebreak c"
proof -
  assume a: "numeric_tag s" and c: "c \<in> set s"
  from split_on_chars[OF c, of "\<lambda>c. c = CHR ''.'' \<or> c = CHR ''-''"]
  consider "c = CHR ''.''" | "c = CHR ''-''" | "is_digit c"
    using a by (auto simp: numeric_tag_def numeric_def re_split_dot_dash_def)
  then show ?thesis
  proof cases
    case 1
    then show ?thesis by (simp add: is_linebreak_def)
  next
    case 2
    then show ?thesis by (simp add: is_linebreak_def)
  next
    case 3
    then show ?thesis by (rule digit_not_linebreak)
  qed
qed

lemma revision_inj: "revision base j = revision base k \<Longrightarrow> j = k"
  by (simp add: revision_def py_str_nat dec_digits_inj)

lemma revision_not_empty: "revision base k \<noteq> ''''"
  by (simp add: revision_def)

lemma splitlines_line:
  "(\<And>c. c \<in> set s \<Longrightarrow> \<not> is_linebreak c) \<Longrightarrow> splitlines (s @ CHR 0x0A # rest) = s # splitlines rest"
proof (induction s)
  case Nil
  show ?case by (cases rest) (simp_all add: is_linebreak_def)
next
  case (Cons a s)
  then show ?case by simp
qed

lemma splitlines_lines:
  "(\<And>t c. t \<in> set ts \<Longrightarrow> c \<in> set t \<Longrightarrow> \<not> is_linebreak c)
   \<Longrightarrow> splitlines (concat (map (\<lambda>t. t @ [CHR 0x0A]) ts)) = ts"
proof (induction ts)
  case Nil
  then show ?case by simp
next
  case (Cons t ts)
  have "splitlines (t @ CHR 0x0A # concat (map (\<lambda>t. t @ [CHR 0x0A]) ts))
        = t # splitlines (concat (map (\<lambda>t. t @ [CHR 0x0A]) ts))"
    by (rule splitlines_line) (use Cons.prems in auto)
  moreover have "splitlines (concat (map (\<lambda>t. t @ [CHR 0x0A]) ts)) = ts"
    by (rule Cons.IH) (use Cons.prems in auto)
  ultimately show ?case by simp
qed

lemma newline_char: "''\<newline>'' = [CHR 0x0A]"
  by simp

section \<open>The search for the next revision\<close>

lemma exec_git_tag_list:
  "run e = git_tag_list tags \<Longrightarrow>
   exec_git_command e [''tag'', ''-l'', t]
   = Inr (concat (map (\<lambda>x. x @ [CHR 0x0A]) (filter (\<lambda>x. x = t) tags)))"
  by (simp add: exec_git_command_def git_tag_list_def)

lemma last_sort_key_in: "xs \<noteq> [] \<Longrightarrow> last (sort_key f xs) \<in> set xs"
proof -
  assume "xs \<noteq> []"
  then have "sort_key f xs \<noteq> []" by (metis length_0_conv length_sort)
  then have "last (sort_key f xs) \<in> set (sort_key f xs)" by (rule last_in_set)
  then show ?thesis by simp
qed

lemma get_last_tag_repo:
  assumes r: "run e = git_tag_list tags" and n: "numeric_tag t"
  shows "get_last_tag e [t] = Inr (if t \<in> set tags then t else '''')"
proof -
  let ?found = "filter (\<lambda>x. x = t) tags"
  have lines: "splitlines (concat (map (\<lambda>x. x @ [CHR 0x0A]) ?found)) = ?found"
    by (rule splitlines_lines) (use n numeric_tag_no_linebreak in auto)
  show ?thesis
  proof (cases "t \<in> set tags")
    case False
    then have "?found = []" by (auto simp: filter_empty_conv)
    then show ?thesis using False
      by (simp add: get_last_tag_def exec_git_tag_list[OF r])
  next
    case True
    then have ne: "?found \<noteq> []" by (auto simp: filter_empty_conv)
    have st: "sort_tags ?found = Inr (sort_key (\<lambda>t. map int (components t)) ?found)"
      by (rule sort_tags_numeric_eq) (use n in auto)
    have "last (sort_key (\<lambda>t. map int (components t)) ?found) \<in> set ?found"
      by (rule last_sort_key_in[OF ne])
    then have l: "last (sort_key (\<lambda>t. map int (components t)) ?found) = t" by simp
    have ne': "sort_key (\<lambda>t. map int (components t)) ?found \<noteq> []"
      using ne by (metis length_0_conv length_sort)
    have len: "\<not> length ?found < 1" using ne by (cases ?found) simp_all
    show ?thesis using True
      by (simp only: get_last_tag_def exec_git_tag_list[OF r] append_Cons append_Nil sum.case
            lines Let_def len if_False st py_last_def ne' l if_True)
  qed
qed

lemma next_revision_found:
  "get_last_tag e [current_tag @ ''-'' @ py_str i] = Inr '''' \<Longrightarrow>
   next_revision_from e current_tag i = Some (Inr (current_tag @ ''-'' @ py_str i))"
  by (subst next_revision_from.simps) simp

lemma next_revision_taken:
  "get_last_tag e [current_tag @ ''-'' @ py_str i] = Inr found \<Longrightarrow> found \<noteq> '''' \<Longrightarrow>
   next_revision_from e current_tag i = next_revision_from e current_tag (i + 1)"
  by (subst next_revision_from.simps) simp

lemma next_revision_error:
  "get_last_tag e [current_tag @ ''-'' @ py_str i] = Inl err \<Longrightarrow>
   next_revision_from e current_tag i = Some (Inl err)"
  by (subst next_revision_from.simps) simp

lemma next_revision_from_reaches:
  assumes r: "run e = git_tag_list tags" and b: "numeric_tag base"
    and free: "revision base k \<notin> set tags"
  shows "n \<le> k \<Longrightarrow> (\<And>j. n \<le> j \<Longrightarrow> j < k \<Longrightarrow> revision base j \<in> set tags) \<Longrightarrow>
         next_revision_from e base (int n) = Some (Inr (revision base k))"
proof (induction "k - n" arbitrary: n)
  case 0
  then have nk: "n = k" by simp
  have "get_last_tag e [revision base k] = Inr ''''"
    using get_last_tag_repo[OF r numeric_tag_revision[OF b], of k] free by simp
  then show ?case unfolding nk revision_def by (rule next_revision_found)
next
  case (Suc d)
  then have lt: "n < k" by simp
  have "revision base n \<in> set tags" using Suc.prems(2)[of n] lt by simp
  then have g: "get_last_tag e [revision base n] = Inr (revision base n)"
    using get_last_tag_repo[OF r numeric_tag_revision[OF b], of n] by simp
  have step: "next_revision_from e base (int n) = next_revision_from e base (int n + 1)"
    by (rule next_revision_taken[OF g[unfolded revision_def]]) simp
  have "next_revision_from e base (int (Suc n)) = Some (Inr (revision base k))"
    by (rule Suc.hyps(1)) (use Suc.hyps(2) Suc.prems lt in auto)
  then show ?case using step by (simp add: add.commute)
qed

lemma free_revision_exists:
  "\<exists>k. 1 \<le> k \<and> k \<le> length tags + 1 \<and> revision base k \<notin> set tags"
proof (rule ccontr)
  assume "\<not> ?thesis"
  then have sub: "revision base ` {1..length tags + 1} \<subseteq> set tags" by auto
  have "inj_on (revision base) {1..length tags + 1}"
    by (rule inj_onI) (rule revision_inj)
  then have "card (revision base ` {1..length tags + 1}) = length tags + 1"
    by (simp add: card_image)
  moreover have "card (revision base ` {1..length tags + 1}) \<le> card (set tags)"
    by (rule card_mono[OF _ sub]) simp
  moreover have "card (set tags) \<le> length tags" by (rule card_length)
  ultimately show False by simp
qed

lemma next_revision_least:
  assumes r: "run e = git_tag_list tags" and b: "numeric_tag base"
  shows "\<exists>k. 1 \<le> k \<and> k \<le> length tags + 1
           \<and> get_next_revision e base = Some (Inr (revision base k))
           \<and> revision base k \<notin> set tags
           \<and> (\<forall>j. 1 \<le> j \<and> j < k \<longrightarrow> revision base j \<in> set tags)"
proof -
  let ?P = "\<lambda>k. 1 \<le> k \<and> revision base k \<notin> set tags"
  obtain k0 where k0: "1 \<le> k0" "k0 \<le> length tags + 1" "revision base k0 \<notin> set tags"
    using free_revision_exists[of tags base] by blast
  define k where "k = (LEAST k. ?P k)"
  have Pk: "?P k" unfolding k_def by (rule LeastI[of ?P k0]) (use k0 in simp)
  have le: "k \<le> k0" unfolding k_def by (rule Least_le) (use k0 in simp)
  have below: "\<And>j. 1 \<le> j \<Longrightarrow> j < k \<Longrightarrow> revision base j \<in> set tags"
    using not_less_Least[of _ ?P] unfolding k_def by blast
  have "next_revision_from e base (int 1) = Some (Inr (revision base k))"
    by (rule next_revision_from_reaches[OF r b]) (use Pk below in auto)
  then have "get_next_revision e base = Some (Inr (revision base k))"
    by (simp add: get_next_revision_def)
  then show ?thesis using Pk le k0(2) below by auto
qed

lemma next_revision_after_revisions:
  assumes r: "run e = git_tag_list (revisions base n)" and b: "numeric_tag base"
  shows "get_next_revision e base = Some (Inr (revision base (Suc n)))"
proof -
  have free: "revision base (Suc n) \<notin> set (revisions base n)"
    by (auto simp: revisions_def dest: revision_inj)
  have "next_revision_from e base (int 1) = Some (Inr (revision base (Suc n)))"
  proof (rule next_revision_from_reaches[OF r b free])
    show "1 \<le> Suc n" by simp
  next
    fix j assume "1 \<le> j" "j < Suc n"
    then have "j \<in> set [1..<Suc n]" by auto
    then show "revision base j \<in> set (revisions base n)"
      unfolding revisions_def by (simp only: set_map image_eqI)
  qed
  then show ?thesis by (simp add: get_next_revision_def)
qed

section \<open>Claims on the next revision\<close>

lemma run_repo_env: "run (repo_env tags) = git_tag_list tags"
  by (simp add: repo_env_def)

lemma numeric_tag_16_1_4: "numeric_tag ''16.1.4''"
  by (simp add: numeric_tag_def numeric_def re_split_dot_dash_def is_digit_def)

lemma revision_16_1_4: "revision ''16.1.4'' 1 = ''16.1.4-1''" "revision ''16.1.4'' 2 = ''16.1.4-2''"
  "revision ''16.1.4'' 3 = ''16.1.4-3''"
  by (simp_all add: revision_def py_str_def dec_digits.simps digit_char_def)

lemma revision_16_1_4_Suc: "revision ''16.1.4'' (Suc 0) = ''16.1.4-1''"
  "revision ''16.1.4'' (Suc (Suc 0)) = ''16.1.4-2''"
  "revision ''16.1.4'' (Suc (Suc (Suc 0))) = ''16.1.4-3''"
  using revision_16_1_4 by (simp_all add: numeral_2_eq_2 numeral_3_eq_3)

lemma revisions_16_1_4: "revisions ''16.1.4'' 0 = []" "revisions ''16.1.4'' 1 = [''16.1.4-1'']"
  "revisions ''16.1.4'' 2 = [''16.1.4-1'', ''16.1.4-2'']"
  by (simp_all add: revisions_def revision_def py_str_def dec_digits.simps digit_char_def upt_rec)

lemma next_16_1_4_empty:
  "get_next_revision (repo_env []) ''16.1.4'' = Some (Inr ''16.1.4-1'')"
proof -
  have "next_revision_from (repo_env []) ''16.1.4'' (int 1) = Some (Inr (revision ''16.1.4'' 1))"
    by (rule next_revision_from_reaches[OF run_repo_env numeric_tag_16_1_4]) simp_all
  then show ?thesis by (simp add: get_next_revision_def revision_16_1_4_Suc)
qed

lemma next_16_1_4_one:
  "get_next_revision (repo_env [''16.1.4-1'']) ''16.1.4'' = Some (Inr ''16.1.4-2'')"
proof -
  have "next_revision_from (repo_env [''16.1.4-1'']) ''16.1.4'' (int 1) = Some (Inr (revision ''16.1.4'' 2))"
  proof (rule next_revision_from_reaches[OF run_repo_env numeric_tag_16_1_4])
    show "revision ''16.1.4'' 2 \<notin> set [''16.1.4-1'']" by (simp add: revision_16_1_4)
    show "(1::nat) \<le> 2" by simp
    fix j :: nat assume "1 \<le> j" "j < 2"
    then have "j = 1" by arith
    then show "revision ''16.1.4'' j \<in> set [''16.1.4-1'']" by (simp add: revision_16_1_4_Suc)
  qed
  then show ?thesis by (simp add: get_next_revision_def revision_16_1_4)
qed

lemma next_16_1_4_other:
  "get_next_revision (repo_env [''16.1.3-1'']) ''16.1.4'' = Some (Inr ''16.1.4-1'')"
proof -
  have "next_revision_from (repo_env [''16.1.3-1'']) ''16.1.4'' (int 1) = Some (Inr (revision ''16.1.4'' 1))"
    by (rule next_revision_from_reaches[OF run_repo_env numeric_tag_16_1_4])
       (simp_all add: revision_16_1_4_Suc)
  then show ?thesis by (simp add: get_next_revision_def revision_16_1_4_Suc)
qed

text \<open>
  C2 (amended). For every base tag whose dot- or dash-separated components are all
  numeric and every repository, \<^verbatim>\<open>get_next_revision\<close> returns the base tag with
  \<open>-k\<close> appended, where \<open>k\<close> is the smallest positive integer such that this string is
  no tag of the repository. The witness gives 16.1.4-1 over an empty repository and
  16.1.4-3 over the tags 16.1.4-1 and 16.1.4-2.
\<close>

theorem get_next_revision_smallest_unused:
  assumes "numeric_tag base" and "run e = git_tag_list tags"
  shows "\<exists>k. 1 \<le> k \<and> get_next_revision e base = Some (Inr (revision base k))
           \<and> revision base k \<notin> set tags
           \<and> (\<forall>j. 1 \<le> j \<and> j < k \<longrightarrow> revision base j \<in> set tags)"
  using next_revision_least[OF assms(2) assms(1)] by blast

theorem get_next_revision_smallest_unused_witness:
  "numeric_tag ''16.1.4''
   \<and> run (repo_env []) = git_tag_list []
   \<and> get_next_revision (repo_env []) ''16.1.4'' = Some (Inr ''16.1.4-1'')
   \<and> run (repo_env [''16.1.4-1'', ''16.1.4-2'']) = git_tag_list [''16.1.4-1'', ''16.1.4-2'']
   \<and> get_next_revision (repo_env [''16.1.4-1'', ''16.1.4-2'']) ''16.1.4'' = Some (Inr ''16.1.4-3'')"
proof -
  obtain k where k: "1 \<le> k" "get_next_revision (repo_env []) ''16.1.4'' = Some (Inr (revision ''16.1.4'' k))"
    "\<forall>j. 1 \<le> j \<and> j < k \<longrightarrow> revision ''16.1.4'' j \<in> set []"
    using get_next_revision_smallest_unused[OF numeric_tag_16_1_4 run_repo_env[of "[]"]] by blast
  have "k = 1"
  proof (rule ccontr)
    assume "k \<noteq> 1"
    then have "1 < k" using k(1) by simp
    then show False using k(3) by auto
  qed
  then have first: "get_next_revision (repo_env []) ''16.1.4'' = Some (Inr ''16.1.4-1'')"
    using k(2) by (simp add: revision_16_1_4_Suc)
  obtain m where m: "1 \<le> m"
    "get_next_revision (repo_env [''16.1.4-1'', ''16.1.4-2'']) ''16.1.4'' = Some (Inr (revision ''16.1.4'' m))"
    "revision ''16.1.4'' m \<notin> set [''16.1.4-1'', ''16.1.4-2'']"
    "\<forall>j. 1 \<le> j \<and> j < m \<longrightarrow> revision ''16.1.4'' j \<in> set [''16.1.4-1'', ''16.1.4-2'']"
    using get_next_revision_smallest_unused[OF numeric_tag_16_1_4
        run_repo_env[of "[''16.1.4-1'', ''16.1.4-2'']"]] by blast
  have "m \<noteq> 1" "m \<noteq> 2" using m(3) revision_16_1_4 by auto
  moreover have "\<not> 3 < m"
  proof
    assume "3 < m"
    then have "revision ''16.1.4'' 3 \<in> set [''16.1.4-1'', ''16.1.4-2'']" using m(4) by simp
    then show False by (simp add: revision_16_1_4)
  qed
  ultimately have "m = 3" using m(1) by arith
  then have third: "get_next_revision (repo_env [''16.1.4-1'', ''16.1.4-2'']) ''16.1.4'' = Some (Inr ''16.1.4-3'')"
    using m(2) by (simp add: revision_16_1_4)
  show ?thesis using first third by (simp add: numeric_tag_16_1_4 run_repo_env)
qed

text \<open>
  C2 as stated, for every base tag, fails: for the base tag v1 in a repository with the
  tag v1-1, the listing of the probed tag v1-1 is sorted, and the sort key raises
  ValueError on the component v1.
\<close>

theorem get_next_revision_nonnumeric_counterexample:
  "get_next_revision (repo_env [''v1-1'']) ''v1'' = Some (Inl ValueError)"
proof -
  have "get_last_tag (repo_env [''v1-1'']) [''v1'' @ ''-'' @ py_str 1] = Inl ValueError"
    by (simp add: get_last_tag_def exec_git_command_def repo_env_def git_tag_list_def
          py_str_def dec_digits.simps digit_char_def is_linebreak_def
          sort_tags_def tag_key_def re_split_dot_dash_def py_int_def strip_def is_space_def
          is_digit_def)
  then show ?thesis unfolding get_next_revision_def by (rule next_revision_error)
qed

lemma numeric_tag_1: "numeric_tag ''1''"
  by (simp add: numeric_tag_def numeric_def re_split_dot_dash_def is_digit_def)

lemma revision_1_10001: "revision ''1'' (Suc 10000) = ''1-10001''"
  by (simp add: revision_def py_str_def dec_digits.simps digit_char_def)

lemma get_last_tag_absent:
  assumes "run e = git_tag_list tags" and "t \<notin> set tags"
  shows "get_last_tag e [t] = Inr ''''"
proof -
  have "filter (\<lambda>x. x = t) tags = []" using assms(2) by (auto simp: filter_empty_conv)
  then show ?thesis by (simp add: get_last_tag_def exec_git_tag_list[OF assms(1)])
qed

lemma next_revision_from_returns:
  assumes r: "run e = git_tag_list tags" and free: "revision base k \<notin> set tags"
  shows "n \<le> k \<Longrightarrow> \<exists>res. next_revision_from e base (int n) = Some res"
proof (induction "k - n" arbitrary: n)
  case 0
  then have nk: "n = k" by simp
  have "get_last_tag e [revision base k] = Inr ''''"
    by (rule get_last_tag_absent[OF r free])
  then have "next_revision_from e base (int k) = Some (Inr (revision base k))"
    unfolding revision_def by (rule next_revision_found)
  then show ?case unfolding nk by blast
next
  case (Suc d)
  show ?case
  proof (cases "get_last_tag e [revision base n]")
    case (Inl err)
    then have "next_revision_from e base (int n) = Some (Inl err)"
      unfolding revision_def by (rule next_revision_error)
    then show ?thesis by blast
  next
    case (Inr found)
    show ?thesis
    proof (cases "found = ''''")
      case True
      then have "next_revision_from e base (int n) = Some (Inr (revision base n))"
        using Inr next_revision_found[of e base "int n"] by (simp add: revision_def)
      then show ?thesis by blast
    next
      case False
      have step: "next_revision_from e base (int n) = next_revision_from e base (int n + 1)"
        by (rule next_revision_taken[OF Inr[unfolded revision_def] False])
      have "\<exists>res. next_revision_from e base (int (Suc n)) = Some res"
        by (rule Suc.hyps(1)) (use Suc.hyps(2) Suc.prems in auto)
      then show ?thesis using step by (simp add: add.commute)
    qed
  qed
qed

lemma get_next_revision_returns:
  assumes "run e = git_tag_list tags"
  shows "\<exists>res. get_next_revision e base = Some res"
proof -
  obtain k where k: "1 \<le> k" "revision base k \<notin> set tags"
    using free_revision_exists[of tags base] by blast
  have "\<exists>res. next_revision_from e base (int 1) = Some res"
    by (rule next_revision_from_returns[OF assms k(2) k(1)])
  then show ?thesis by (simp add: get_next_revision_def)
qed

text \<open>
  C3 (amended). Over every repository \<^verbatim>\<open>get_next_revision\<close> returns, for every base
  tag: a finite repository cannot hold every candidate. For a base tag with numeric
  components the loop ends with a tag after at most one probe more than the repository
  has tags. There is no upper bound of its own and no failure for an exhausted range:
  over the tags \<open>base-1\<close>, ..., \<open>base-n\<close> it returns \<open>base-(n+1)\<close>, whatever \<open>n\<close> is.
\<close>

theorem get_next_revision_terminates_without_bound:
  assumes "run e = git_tag_list tags"
  shows "(\<exists>res. get_next_revision e base = Some res)
         \<and> (numeric_tag base \<longrightarrow>
              (\<exists>k. 1 \<le> k \<and> k \<le> length tags + 1
                   \<and> get_next_revision e base = Some (Inr (revision base k)))
              \<and> get_next_revision (repo_env (revisions base n)) base
                   = Some (Inr (revision base (Suc n))))"
proof (intro conjI impI)
  show "\<exists>res. get_next_revision e base = Some res"
    by (rule get_next_revision_returns[OF assms])
next
  assume b: "numeric_tag base"
  show "\<exists>k. 1 \<le> k \<and> k \<le> length tags + 1 \<and> get_next_revision e base = Some (Inr (revision base k))"
    using next_revision_least[OF assms b] by blast
  show "get_next_revision (repo_env (revisions base n)) base = Some (Inr (revision base (Suc n)))"
    by (rule next_revision_after_revisions[OF run_repo_env b])
qed

theorem get_next_revision_terminates_without_bound_witness:
  "run (repo_env [''16.1.4-1'']) = git_tag_list [''16.1.4-1'']
   \<and> numeric_tag ''16.1.4''
   \<and> get_next_revision (repo_env [''16.1.4-1'']) ''16.1.4'' = Some (Inr ''16.1.4-2'')
   \<and> get_next_revision (repo_env [''16.1.4-1'', ''16.1.4-2'']) ''16.1.4'' = Some (Inr ''16.1.4-3'')"
proof -
  have "get_next_revision (repo_env (revisions ''16.1.4'' 2)) ''16.1.4''
        = Some (Inr (revision ''16.1.4'' (Suc 2)))"
    using get_next_revision_terminates_without_bound[OF run_repo_env[of "[''16.1.4-1'']"],
        of "''16.1.4''" 2] numeric_tag_16_1_4 by blast
  moreover have "revision ''16.1.4'' (Suc 2) = ''16.1.4-3''"
    using revision_16_1_4(3) by simp
  ultimately show ?thesis
    by (simp add: numeric_tag_16_1_4 run_repo_env next_16_1_4_one revisions_16_1_4)
qed

text \<open>
  C3 as stated fails: over the tags 1-1, ..., 1-10000 the search goes beyond 10000
  candidates and returns 1-10001, where the claim has it fail.
\<close>

theorem get_next_revision_bound_counterexample:
  "get_next_revision (repo_env (revisions ''1'' 10000)) ''1'' = Some (Inr ''1-10001'')"
  using next_revision_after_revisions[OF run_repo_env numeric_tag_1, of 10000]
  by (simp only: revision_1_10001)

lemma strip_16: "strip_revision ''16.1.3-1'' = ''16.1.3''" "strip_revision ''16.1.4-1'' = ''16.1.4''"
  by (simp_all add: strip_revision_takeWhile)

text \<open>
  C1. For every upstream tag, local tag and force flag, the decision reports
  \<open>needs_update\<close> exactly when the upstream tag differs from the local tag without its
  revision; when \<open>needs_update\<close> or the flag holds, the new tag is what
  \<^verbatim>\<open>get_next_revision\<close> returns for the upstream tag (and the decision fails or runs
  on exactly as that call does); otherwise the new tag stays at the value 0 it was
  given first, and \<^verbatim>\<open>get_next_revision\<close> is not called. The witness holds the three
  decisions of the specification.
\<close>

theorem decide_release:
  "(case decide e upstream local force w of
      None \<Rightarrow> (upstream \<noteq> strip_revision local \<or> force) \<and> get_next_revision e upstream = None
    | Some (Inl err, w') \<Rightarrow>
        (upstream \<noteq> strip_revision local \<or> force) \<and> get_next_revision e upstream = Some (Inl err)
    | Some (Inr d, w') \<Rightarrow>
        needs_update d = (upstream \<noteq> strip_revision local) \<and>
        (if needs_update d \<or> force
         then get_next_revision e upstream = Some (Inr (new_project_tag d))
         else new_project_tag d = ''0''))"
  by (simp add: decide_def Let_def split: option.splits sum.splits)

lemma decide_examples:
  "map_option fst (decide (repo_env [''16.1.3-1'']) ''16.1.4'' ''16.1.3-1'' False empty_world)
     = Some (Inr \<lparr>needs_update = True, new_project_tag = ''16.1.4-1''\<rparr>)"
  "map_option fst (decide (repo_env [''16.1.4-1'']) ''16.1.4'' ''16.1.4-1'' False empty_world)
     = Some (Inr \<lparr>needs_update = False, new_project_tag = ''0''\<rparr>)"
  "map_option fst (decide (repo_env [''16.1.4-1'']) ''16.1.4'' ''16.1.4-1'' True empty_world)
     = Some (Inr \<lparr>needs_update = False, new_project_tag = ''16.1.4-2''\<rparr>)"
  by (simp_all add: decide_def strip_16 next_16_1_4_other next_16_1_4_one)

theorem decide_release_witness:
  "map_option fst (decide (repo_env [''16.1.3-1'']) ''16.1.4'' ''16.1.3-1'' False empty_world)
     = Some (Inr \<lparr>needs_update = True, new_project_tag = ''16.1.4-1''\<rparr>)
   \<and> map_option fst (decide (repo_env [''16.1.4-1'']) ''16.1.4'' ''16.1.4-1'' False empty_world)
     = Some (Inr \<lparr>needs_update = False, new_project_tag = ''0''\<rparr>)
   \<and> map_option fst (decide (repo_env [''16.1.4-1'']) ''16.1.4'' ''16.1.4-1'' True empty_world)
     = Some (Inr \<lparr>needs_update = False, new_project_tag = ''16.1.4-2''\<rparr>)
   \<and> get_next_revision (repo_env [''16.1.3-1'']) ''16.1.4'' = Some (Inr ''16.1.4-1'')"
proof -
  obtain d w' where d: "decide (repo_env [''16.1.3-1'']) ''16.1.4'' ''16.1.3-1'' False empty_world = Some (Inr d, w')"
    "d = \<lparr>needs_update = True, new_project_tag = ''16.1.4-1''\<rparr>"
    using decide_examples(1) by (auto simp: map_option_case split: option.splits)
  have "get_next_revision (repo_env [''16.1.3-1'']) ''16.1.4'' = Some (Inr ''16.1.4-1'')"
    using decide_release[where e = "repo_env [''16.1.3-1'']" and upstream = "''16.1.4''"
        and local = "''16.1.3-1''" and force = False and w = empty_world] d
    by simp
  then show ?thesis using decide_examples by simp
qed

section \<open>Claims on the local tag\<close>

lemma get_last_tag_empty_repo: "get_last_tag (repo_env []) [] = Inr ''''"
  by (simp add: get_last_tag_def exec_git_command_def repo_env_def git_tag_list_def)

text \<open>
  C10. When the local tag is the empty string, which \<^verbatim>\<open>get_last_tag\<close> returns for a
  repository without tags, the revision stripped from it is the empty string again, and
  for every non-empty upstream tag the decision takes the release branch: a decision,
  when \<^verbatim>\<open>get_next_revision\<close> returns, reports \<open>needs_update\<close>.
\<close>

theorem empty_local_tag_needs_update:
  assumes "upstream \<noteq> ''''"
  shows "strip_revision '''' = ''''
         \<and> (case decide e upstream '''' force w of
               None \<Rightarrow> get_next_revision e upstream = None
             | Some (Inl err, w') \<Rightarrow> get_next_revision e upstream = Some (Inl err)
             | Some (Inr d, w') \<Rightarrow>
                 needs_update d \<and> get_next_revision e upstream = Some (Inr (new_project_tag d)))"
  using assms by (simp add: decide_def strip_revision_empty Let_def split: option.splits sum.splits)

theorem empty_local_tag_needs_update_witness:
  "''16.1.4'' \<noteq> ''''
   \<and> fst (get_last_project_tag (repo_env []) empty_world) = Inr ''''
   \<and> map_option fst (decide (repo_env []) ''16.1.4'' '''' False empty_world)
       = Some (Inr \<lparr>needs_update = True, new_project_tag = ''16.1.4-1''\<rparr>)"
proof -
  have ne: "''16.1.4'' \<noteq> ''''" by simp
  have l: "fst (get_last_project_tag (repo_env []) empty_world) = Inr ''''"
    by (simp add: get_last_project_tag_def get_last_tag_empty_repo)
  have "decide (repo_env []) ''16.1.4'' '''' False empty_world \<noteq> None"
    by (simp add: decide_def strip_revision_empty next_16_1_4_empty)
  then obtain r w' where r: "decide (repo_env []) ''16.1.4'' '''' False empty_world = Some (r, w')"
    by (cases "decide (repo_env []) ''16.1.4'' '''' False empty_world") auto
  have "r = Inr \<lparr>needs_update = True, new_project_tag = ''16.1.4-1''\<rparr>"
    using empty_local_tag_needs_update[OF ne, of "repo_env []" False empty_world] r
    by (cases r) (simp_all add: next_16_1_4_empty)
  then show ?thesis using ne l r by simp
qed

text \<open>
  How a failure of git reaches the caller. When git cannot be started,
  \<^verbatim>\<open>get_last_tag\<close> fails, and \<^verbatim>\<open>get_last_project_tag\<close>, \<^verbatim>\<open>get_next_revision\<close> and
  \<^verbatim>\<open>main\<close> pass the failure on and never recover from it. When git runs and prints
  nothing, the result is the empty string whatever the exit status is.
\<close>

lemma get_last_tag_git_failures:
  "(run e (''git'' # ''tag'' # ''-l'' # filter_args) = NotStarted \<longrightarrow>
      get_last_tag e filter_args = Inl OSError)
   \<and> (run e (''git'' # ''tag'' # ''-l'' # filter_args) = Completed returncode (Some '''') \<longrightarrow>
      get_last_tag e filter_args = Inr '''')
   \<and> (get_last_tag e [] = Inl err \<longrightarrow> get_last_project_tag e w = (Inl err, w))
   \<and> (get_last_tag e [current_tag @ ''-'' @ py_str 1] = Inl err \<longrightarrow>
      get_next_revision e current_tag = Some (Inl err))
   \<and> (get_last_tag e [] = Inl err \<and> fst (get_last_frida_tag e w) = Inr t \<longrightarrow>
      map_option fst (main e order w) = Some (Inl err))"
proof (intro conjI impI)
  assume "run e (''git'' # ''tag'' # ''-l'' # filter_args) = NotStarted"
  then show "get_last_tag e filter_args = Inl OSError"
    by (simp add: get_last_tag_def exec_git_command_def)
next
  assume "run e (''git'' # ''tag'' # ''-l'' # filter_args) = Completed returncode (Some '''')"
  then show "get_last_tag e filter_args = Inr ''''"
    by (simp add: get_last_tag_def exec_git_command_def)
next
  assume "get_last_tag e [] = Inl err"
  then show "get_last_project_tag e w = (Inl err, w)"
    by (simp add: get_last_project_tag_def)
next
  assume "get_last_tag e [current_tag @ ''-'' @ py_str 1] = Inl err"
  then show "get_next_revision e current_tag = Some (Inl err)"
    unfolding get_next_revision_def by (rule next_revision_error)
next
  assume a: "get_last_tag e [] = Inl err \<and> fst (get_last_frida_tag e w) = Inr t"
  obtain w1 where f: "get_last_frida_tag e w = (Inr t, w1)"
    using a by (cases "get_last_frida_tag e w") auto
  have "get_last_project_tag e w1 = (Inl err, w1)"
    using a by (simp add: get_last_project_tag_def)
  then show "map_option fst (main e order w) = Some (Inl err)"
    by (simp add: main_def f)
qed

lemma get_last_tag_git_failures_example:
  "run no_git_env [''git'', ''tag'', ''-l''] = NotStarted
   \<and> get_last_tag no_git_env [] = Inl OSError
   \<and> run no_repo_env [''git'', ''tag'', ''-l''] = Completed 128 (Some '''')
   \<and> get_last_tag no_repo_env [] = Inr ''''
   \<and> fst (get_last_frida_tag no_git_env empty_world) = Inr ''16.1.4''
   \<and> map_option fst (main no_git_env archs empty_world) = Some (Inl OSError)"
proof -
  have a: "run no_git_env [''git'', ''tag'', ''-l''] = NotStarted"
    by (simp add: no_git_env_def git_missing_def)
  have b: "run no_repo_env [''git'', ''tag'', ''-l''] = Completed 128 (Some '''')"
    by (simp add: no_repo_env_def git_not_a_repository_def)
  have c: "fst (get_last_frida_tag no_git_env empty_world) = Inr ''16.1.4''"
    by (simp add: get_last_frida_tag_def get_last_github_tag_def no_git_env_def github_with_def)
  have 1: "get_last_tag no_git_env [] = Inl OSError"
    using get_last_tag_git_failures[where e = no_git_env and filter_args = "[]"] a by blast
  have 2: "get_last_tag no_repo_env [] = Inr ''''"
    using get_last_tag_git_failures[where e = no_repo_env and filter_args = "[]" and returncode = 128] b
    by blast
  have 3: "map_option fst (main no_git_env archs empty_world) = Some (Inl OSError)"
    using get_last_tag_git_failures[where e = no_git_env and w = empty_world and err = OSError
        and t = "''16.1.4''" and order = archs] 1 c by blast
  show ?thesis using a b c 1 2 3 by simp
qed

text \<open>
  C8. The claim has \<^verbatim>\<open>get_last_tag\<close> fail whenever the repository cannot be queried.
  Outside a repository git ends with status 128 and an empty standard output; the exit
  status is never read, so \<^verbatim>\<open>get_last_tag\<close> and \<^verbatim>\<open>get_last_project_tag\<close> return the
  empty string as a normal result, \<^verbatim>\<open>get_next_revision\<close> takes its first candidate to
  be free, and the decision writes the marker file for a release.
\<close>

theorem get_last_tag_not_a_repository:
  "run no_repo_env [''git'', ''tag'', ''-l''] = Completed 128 (Some '''')
   \<and> get_last_tag no_repo_env [] = Inr ''''
   \<and> fst (get_last_project_tag no_repo_env empty_world) = Inr ''''
   \<and> get_next_revision no_repo_env ''16.1.4'' = Some (Inr ''16.1.4-1'')
   \<and> map_option (\<lambda>r. read_file (snd r) ''NEW_TAG.txt'')
        (decide no_repo_env ''16.1.4'' '''' False empty_world)
       = Some (Some (Data ''16.1.4-1''))"
proof -
  have g: "get_last_tag no_repo_env args = Inr ''''" for args
    by (simp add: get_last_tag_def exec_git_command_def no_repo_env_def git_not_a_repository_def)
  have "next_revision_from no_repo_env ''16.1.4'' 1 = Some (Inr (''16.1.4'' @ ''-'' @ py_str 1))"
    by (rule next_revision_found) (rule g)
  then have n: "get_next_revision no_repo_env ''16.1.4'' = Some (Inr ''16.1.4-1'')"
    by (simp add: get_next_revision_def py_str_def dec_digits.simps digit_char_def)
  have d: "map_option (\<lambda>r. read_file (snd r) ''NEW_TAG.txt'')
        (decide no_repo_env ''16.1.4'' '''' False empty_world)
       = Some (Some (Data ''16.1.4-1''))"
    by (simp add: decide_def strip_revision_empty n read_file_def write_file_def print_def
        empty_world_def)
  have r: "run no_repo_env [''git'', ''tag'', ''-l''] = Completed 128 (Some '''')"
    by (simp add: no_repo_env_def git_not_a_repository_def)
  show ?thesis using r n d by (simp add: g get_last_project_tag_def)
qed

section \<open>Claims on the marker file\<close>

lemma read_write_file:
  "read_file (write_file p c w) q = (if q = p then Some c else read_file w q)"
  by (simp add: read_file_def write_file_def update_conv')







section \<open>The files a build touches\<close>

lemma map_of_filter_key:
  "map_of (filter (\<lambda>(p, c). P p) xs) q = (if P q then map_of xs q else None)"
  by (induction xs) auto

lemma read_rmtree: "read_file (rmtree d w) q = (if under d q then None else read_file w q)"
  by (simp add: read_file_def rmtree_def map_of_filter_key)

lemma under_moved: assumes "under src p" shows "under dst (dst @ drop (length src) p)"
proof -
  have "take (length src + 1) p = src @ ''/''" using assms by (simp add: under_def)
  then have "p = (src @ ''/'') @ drop (length src + 1) p"
    by (metis append_take_drop_id)
  then obtain rest where "p = src @ ''/'' @ rest" by auto
  then have "drop (length src) p = ''/'' @ rest" by simp
  then show ?thesis by (simp add: under_def)
qed

lemma copytree_frame:
  assumes "copytree src dst w = Inr w'" and "\<not> under dst q"
  shows "read_file w' q = read_file w q"
proof -
  let ?new = "map (\<lambda>(p, c). (dst @ drop (length src) p, c)) (filter (\<lambda>(p, c). under src p) (files w))"
  have w': "files w' = files w @ ?new"
    using assms(1) by (auto simp: copytree_def split: if_splits)
  have "q \<notin> fst ` set ?new" using assms(2) under_moved by auto
  then have "map_of ?new q = None" by (simp add: map_of_eq_None_iff)
  then show ?thesis
    by (simp add: read_file_def w' map_add_def split: option.splits)
qed

lemma create_module_prop_frame:
  "create_module_prop path project_tag w = Inr w' \<Longrightarrow> q \<noteq> joinpath path ''module.prop'' \<Longrightarrow>
   read_file w' q = read_file w q"
  by (auto simp: create_module_prop_def read_write_file split: sum.splits)

lemma create_module_prop_written:
  "create_module_prop path project_tag w = Inr w' \<Longrightarrow>
   read_file w' (joinpath path ''module.prop'') \<noteq> None"
  by (auto simp: create_module_prop_def read_write_file split: sum.splits)

lemma under_tmp_module_prop: "under PATH_BUILD_TMP (joinpath PATH_BUILD_TMP ''module.prop'')"
  by (simp add: under_def joinpath_def PATH_BUILD_TMP_def)

lemma create_module_frame:
  assumes "create_module project_tag w = (r, w1)" and "\<not> under PATH_BUILD_TMP q"
  shows "read_file w1 q = read_file w q"
proof -
  let ?w0 = "if path_exists w PATH_BUILD_TMP then rmtree PATH_BUILD_TMP w else w"
  have 0: "read_file ?w0 q = read_file w q" using assms(2) by (simp add: read_rmtree)
  show ?thesis
  proof (cases "copytree PATH_BASE_MODULE PATH_BUILD_TMP ?w0")
    case (Inl err)
    then have "w1 = ?w0" using assms(1) by (simp add: create_module_def Let_def)
    then show ?thesis using 0 by simp
  next
    case (Inr w2)
    have 2: "read_file w2 q = read_file w q"
      using copytree_frame[OF Inr assms(2)] 0 by simp
    show ?thesis
    proof (cases "create_module_prop PATH_BUILD_TMP project_tag w2")
      case (Inl err)
      then have "w1 = w2" using assms(1) Inr by (simp add: create_module_def Let_def)
      then show ?thesis using 2 by simp
    next
      case (Inr w3)
      then have "w1 = w3" using assms(1) \<open>copytree PATH_BASE_MODULE PATH_BUILD_TMP ?w0 = Inr w2\<close>
        by (simp add: create_module_def Let_def)
      moreover have "q \<noteq> joinpath PATH_BUILD_TMP ''module.prop''"
        using assms(2) under_tmp_module_prop by auto
      ultimately show ?thesis using create_module_prop_frame[OF Inr] 2 by simp
    qed
  qed
qed

lemma create_module_staged:
  assumes "create_module project_tag w = (None, w1)"
  shows "read_file w1 (joinpath PATH_BUILD_TMP ''module.prop'') \<noteq> None"
proof -
  let ?w0 = "if path_exists w PATH_BUILD_TMP then rmtree PATH_BUILD_TMP w else w"
  obtain w2 where c: "copytree PATH_BASE_MODULE PATH_BUILD_TMP ?w0 = Inr w2"
    using assms by (cases "copytree PATH_BASE_MODULE PATH_BUILD_TMP ?w0")
      (simp_all add: create_module_def Let_def)
  have "create_module_prop PATH_BUILD_TMP project_tag w2 = Inr w1"
    using assms c by (cases "create_module_prop PATH_BUILD_TMP project_tag w2")
      (simp_all add: create_module_def Let_def)
  then show ?thesis by (rule create_module_prop_written)
qed

lemma download_file_frame:
  "download_file e url p w = Inr w' \<Longrightarrow> q \<noteq> p \<Longrightarrow> read_file w' q = read_file w q"
  by (auto simp: download_file_def read_write_file split: if_splits response.splits)

lemma download_file_keeps:
  assumes "download_file e url p w = Inr w'" and "read_file w q = Some c"
  shows "read_file w' q = Some c"
proof (cases "path_exists w p")
  case True
  then have "w' = w" using assms(1) by (simp add: download_file_def)
  then show ?thesis using assms(2) by simp
next
  case False
  then have "read_file w p = None" by (simp add: path_exists_def read_file_def)
  then have "q \<noteq> p" using assms(2) by auto
  then show ?thesis using download_file_frame[OF assms(1)] assms(2) by simp
qed

lemma extract_file_frame:
  "extract_file e a d w = Inr w' \<Longrightarrow> q \<noteq> d \<Longrightarrow> read_file w' q = read_file w q"
  by (auto simp: extract_file_def read_write_file split: option.splits)

lemma extract_file_written:
  "extract_file e a d w = Inr w' \<Longrightarrow> read_file w a \<noteq> None \<and> read_file w' d \<noteq> None"
  by (auto simp: extract_file_def read_write_file split: option.splits)

lemma path_not_dest: "frida_server_path frida_tag a \<noteq> frida_server_dest b"
  by (simp add: frida_server_path_def frida_server_dest_def joinpath_def
      PATH_DOWNLOADS_def PATH_BUILD_TMP_def)

lemma downloads_not_dest: "under PATH_DOWNLOADS q \<Longrightarrow> q \<noteq> frida_server_dest a"
  by (auto simp: under_def frida_server_dest_def joinpath_def PATH_DOWNLOADS_def PATH_BUILD_TMP_def)

lemma fill_module_cases:
  assumes "fill_module e arch frida_tag project_tag w = (r, w')"
  obtains (download_failed) err where "r = Some err" "w' = w"
  | (extract_failed) err w1 where "r = Some err" "w' = w1"
      "download_file e (''https://github.com/frida/frida/releases/download/'' @ frida_tag @ ''/''
          @ ''frida-server-'' @ frida_tag @ ''-android-'' @ arch @ ''.xz'')
         (frida_server_path frida_tag arch) w = Inr w1"
  | (filled) w1 where "r = None"
      "download_file e (''https://github.com/frida/frida/releases/download/'' @ frida_tag @ ''/''
          @ ''frida-server-'' @ frida_tag @ ''-android-'' @ arch @ ''.xz'')
         (frida_server_path frida_tag arch) w = Inr w1"
      "extract_file e (frida_server_path frida_tag arch) (frida_server_dest arch) w1 = Inr w'"
  using assms by (auto simp: fill_module_def Let_def split: sum.splits)

lemma fill_module_frame:
  assumes "fill_module e arch frida_tag project_tag w = (r, w')"
    and "q \<noteq> frida_server_path frida_tag arch" and "q \<noteq> frida_server_dest arch"
  shows "read_file w' q = read_file w q"
  using assms(1)
proof (cases rule: fill_module_cases)
  case (download_failed err)
  then show ?thesis by simp
next
  case (extract_failed err w1)
  then show ?thesis using download_file_frame[OF extract_failed(3) assms(2)] by simp
next
  case (filled w1)
  then show ?thesis
    using download_file_frame[OF filled(2) assms(2)] extract_file_frame[OF filled(3) assms(3)]
    by simp
qed

lemma fill_module_keeps:
  assumes "fill_module e arch frida_tag project_tag w = (r, w')"
    and "read_file w q = Some c" and "q \<noteq> frida_server_dest arch"
  shows "read_file w' q = Some c"
  using assms(1)
proof (cases rule: fill_module_cases)
  case (download_failed err)
  then show ?thesis using assms(2) by simp
next
  case (extract_failed err w1)
  then show ?thesis using download_file_keeps[OF extract_failed(3) assms(2)] by simp
next
  case (filled w1)
  then show ?thesis
    using download_file_keeps[OF filled(2) assms(2)] extract_file_frame[OF filled(3) assms(3)]
    by simp
qed

lemma fill_module_exists:
  assumes "fill_module e arch frida_tag project_tag w = (r, w')" and "read_file w q \<noteq> None"
  shows "read_file w' q \<noteq> None"
proof (cases "q = frida_server_dest arch")
  case False
  then show ?thesis using fill_module_keeps[OF assms(1) _ False] assms(2) by auto
next
  case True
  from assms(1) show ?thesis
  proof (cases rule: fill_module_cases)
    case (download_failed err)
    then show ?thesis using assms(2) by simp
  next
    case (extract_failed err w1)
    obtain c where "read_file w q = Some c" using assms(2) by auto
    then show ?thesis using download_file_keeps[OF extract_failed(3)] extract_failed(2) by simp
  next
    case (filled w1)
    then show ?thesis using extract_file_written[OF filled(3)] True by simp
  qed
qed

lemma fill_module_filled:
  assumes "fill_module e arch frida_tag project_tag w = (None, w')"
  shows "read_file w' (frida_server_path frida_tag arch) \<noteq> None
         \<and> read_file w' (frida_server_dest arch) \<noteq> None"
  using assms
proof (cases rule: fill_module_cases)
  case (filled w1)
  have "read_file w1 (frida_server_path frida_tag arch) \<noteq> None"
    and d: "read_file w' (frida_server_dest arch) \<noteq> None"
    using extract_file_written[OF filled(3)] by simp_all
  moreover have "read_file w' (frida_server_path frida_tag arch)
                 = read_file w1 (frida_server_path frida_tag arch)"
    by (rule extract_file_frame[OF filled(3) path_not_dest])
  ultimately show ?thesis by simp
qed simp_all

section \<open>Claims on a failed task\<close>

lemma run_tasks_Cons:
  assumes "run_tasks e (arch # order) frida_tag project_tag w = (rs, w')"
  obtains r w1 rs' where "fill_module e arch frida_tag project_tag w = (r, w1)"
    "run_tasks e order frida_tag project_tag w1 = (rs', w')" "rs = (arch, r) # rs'"
  using assms by (auto simp: Let_def split: prod.splits)

lemma run_tasks_exists:
  "run_tasks e order frida_tag project_tag w = (rs, w') \<Longrightarrow> read_file w q \<noteq> None \<Longrightarrow>
   read_file w' q \<noteq> None"
proof (induction order arbitrary: w rs)
  case Nil
  then show ?case by simp
next
  case (Cons arch order)
  from Cons.prems(1) obtain r w1 rs' where s: "fill_module e arch frida_tag project_tag w = (r, w1)"
    "run_tasks e order frida_tag project_tag w1 = (rs', w')"
    by (rule run_tasks_Cons)
  have "read_file w1 q \<noteq> None" by (rule fill_module_exists[OF s(1) Cons.prems(2)])
  then show ?case by (rule Cons.IH[OF s(2)])
qed

lemma run_tasks_frame:
  "run_tasks e order frida_tag project_tag w = (rs, w') \<Longrightarrow>
   (\<And>a. q \<noteq> frida_server_path frida_tag a) \<Longrightarrow> (\<And>a. q \<noteq> frida_server_dest a) \<Longrightarrow>
   read_file w' q = read_file w q"
proof (induction order arbitrary: w rs)
  case Nil
  then show ?case by simp
next
  case (Cons arch order)
  from Cons.prems(1) obtain r w1 rs' where s: "fill_module e arch frida_tag project_tag w = (r, w1)"
    "run_tasks e order frida_tag project_tag w1 = (rs', w')"
    by (rule run_tasks_Cons)
  have "read_file w1 q = read_file w q"
    by (rule fill_module_frame[OF s(1) Cons.prems(2) Cons.prems(3)])
  moreover have "read_file w' q = read_file w1 q"
    by (rule Cons.IH[OF s(2) Cons.prems(2) Cons.prems(3)])
  ultimately show ?case by simp
qed

lemma run_tasks_keeps:
  "run_tasks e order frida_tag project_tag w = (rs, w') \<Longrightarrow> read_file w q = Some c \<Longrightarrow>
   (\<And>a. q \<noteq> frida_server_dest a) \<Longrightarrow> read_file w' q = Some c"
proof (induction order arbitrary: w rs)
  case Nil
  then show ?case by simp
next
  case (Cons arch order)
  from Cons.prems(1) obtain r w1 rs' where s: "fill_module e arch frida_tag project_tag w = (r, w1)"
    "run_tasks e order frida_tag project_tag w1 = (rs', w')"
    by (rule run_tasks_Cons)
  have "read_file w1 q = Some c"
    by (rule fill_module_keeps[OF s(1) Cons.prems(2) Cons.prems(3)])
  then show ?case by (rule Cons.IH[OF s(2) _ Cons.prems(3)])
qed

lemma run_tasks_filled:
  "run_tasks e order frida_tag project_tag w = (rs, w') \<Longrightarrow> (a, None) \<in> set rs \<Longrightarrow>
   read_file w' (frida_server_path frida_tag a) \<noteq> None \<and> read_file w' (frida_server_dest a) \<noteq> None"
proof (induction order arbitrary: w rs)
  case Nil
  then show ?case by simp
next
  case (Cons arch order)
  from Cons.prems(1) obtain r w1 rs' where s: "fill_module e arch frida_tag project_tag w = (r, w1)"
    "run_tasks e order frida_tag project_tag w1 = (rs', w')" "rs = (arch, r) # rs'"
    by (rule run_tasks_Cons)
  show ?case
  proof (cases "(a, None) \<in> set rs'")
    case True
    then show ?thesis by (rule Cons.IH[OF s(2)])
  next
    case False
    then have ar: "a = arch" "r = None" using Cons.prems(2) s(3) by auto
    have f: "read_file w1 (frida_server_path frida_tag a) \<noteq> None
             \<and> read_file w1 (frida_server_dest a) \<noteq> None"
      using fill_module_filled[of e arch frida_tag project_tag w w1] s(1) ar by simp
    show ?thesis using run_tasks_exists[OF s(2)] f by blast
  qed
qed

lemma run_tasks_order:
  "run_tasks e order frida_tag project_tag w = (rs, w') \<Longrightarrow> map fst rs = order"
proof (induction order arbitrary: w rs)
  case Nil
  then show ?case by simp
next
  case (Cons arch order)
  from Cons.prems(1) obtain r w1 rs' where s: "fill_module e arch frida_tag project_tag w = (r, w1)"
    "run_tasks e order frida_tag project_tag w1 = (rs', w')" "rs = (arch, r) # rs'"
    by (rule run_tasks_Cons)
  show ?case using Cons.IH[OF s(2)] s(3) by simp
qed

lemma first_exception_failed:
  "(a, Some err) \<in> set rs \<Longrightarrow> \<exists>failed cause. first_exception rs = Some cause \<and> (failed, Some cause) \<in> set rs"
proof (induction rs rule: first_exception.induct)
  case 1
  then show ?case by simp
next
  case (2 arch rs)
  then show ?case by auto
next
  case (3 arch err' rs)
  then show ?case by auto
qed

lemma zip_paths:
  "\<not> under PATH_BUILD_TMP (module_zip project_tag)"
  "module_zip project_tag \<noteq> frida_server_path frida_tag a"
  "module_zip project_tag \<noteq> frida_server_dest a"
  by (simp_all add: under_def module_zip_def frida_server_path_def frida_server_dest_def
      joinpath_def PATH_BUILD_def PATH_BUILD_TMP_def PATH_DOWNLOADS_def)

lemma updater_paths:
  "\<not> under PATH_BUILD_TMP (joinpath PATH_BUILD ''updater.json'')"
  "joinpath PATH_BUILD ''updater.json'' \<noteq> frida_server_path frida_tag a"
  "joinpath PATH_BUILD ''updater.json'' \<noteq> frida_server_dest a"
  by (simp_all add: under_def frida_server_path_def frida_server_dest_def
      joinpath_def PATH_BUILD_def PATH_BUILD_TMP_def PATH_DOWNLOADS_def)

lemma downloads_not_tmp: "under PATH_DOWNLOADS q \<Longrightarrow> \<not> under PATH_BUILD_TMP q"
  by (auto simp: under_def PATH_DOWNLOADS_def PATH_BUILD_TMP_def)

lemma fill_module_decode_failed:
  assumes "fill_module e arch frida_tag project_tag w = (Some LZMAError, w')"
  shows "\<exists>c. read_file w' (frida_server_path frida_tag arch) = Some c \<and> unxz e c = None"
proof -
  let ?url = "''https://github.com/frida/frida/releases/download/'' @ frida_tag @ ''/''
          @ ''frida-server-'' @ frida_tag @ ''-android-'' @ arch @ ''.xz''"
  show ?thesis
  proof (cases "download_file e ?url (frida_server_path frida_tag arch) w")
    case (Inl err)
    then have "err \<noteq> LZMAError"
      by (auto simp: download_file_def split: if_splits response.splits)
    then show ?thesis using assms Inl by (simp add: fill_module_def Let_def)
  next
    case (Inr w1)
    then have x: "extract_file e (frida_server_path frida_tag arch) (frida_server_dest arch) w1
                  = Inl LZMAError" and w': "w' = w1"
      using assms by (auto simp: fill_module_def Let_def split: sum.splits)
    from x have "\<exists>c. read_file w1 (frida_server_path frida_tag arch) = Some c \<and> unxz e c = None"
      by (auto simp: extract_file_def split: option.splits)
    then show ?thesis using w' by simp
  qed
qed

lemma run_tasks_decode_failed:
  "run_tasks e order frida_tag project_tag w = (rs, w') \<Longrightarrow> (a, Some LZMAError) \<in> set rs \<Longrightarrow>
   \<exists>c. read_file w' (frida_server_path frida_tag a) = Some c \<and> unxz e c = None"
proof (induction order arbitrary: w rs)
  case Nil
  then show ?case by simp
next
  case (Cons arch order)
  from Cons.prems(1) obtain r w1 rs' where s: "fill_module e arch frida_tag project_tag w = (r, w1)"
    "run_tasks e order frida_tag project_tag w1 = (rs', w')" "rs = (arch, r) # rs'"
    by (rule run_tasks_Cons)
  show ?case
  proof (cases "(a, Some LZMAError) \<in> set rs'")
    case True
    then show ?thesis by (rule Cons.IH[OF s(2)])
  next
    case False
    then have ar: "a = arch" "r = Some LZMAError" using Cons.prems(2) s(3) by auto
    obtain c where c: "read_file w1 (frida_server_path frida_tag a) = Some c" "unxz e c = None"
      using fill_module_decode_failed[of e arch frida_tag project_tag w w1] s(1) ar by auto
    have "read_file w' (frida_server_path frida_tag a) = Some c"
      by (rule run_tasks_keeps[OF s(2) c(1)]) (rule path_not_dest)
    then show ?thesis using c(2) by blast
  qed
qed

text \<open>
  C6. For every order in which the four tasks complete: when the staging tree has been
  created and a task has failed, \<^verbatim>\<open>do_build\<close> raises the exception of a failed task
  (the first one in the order of completion) and stops there: the archive and
  updater.json are as they were before the build, and nothing is cleaned up. Every file
  of the staging tree as it was created is left, with its module.prop; every file of the
  download cache is left as it was; the tasks that did not fail leave their download and
  their extracted server; and a task that failed in decoding leaves in the cache the
  very download that the decoder rejected. The witness holds a build off line with one
  cached archive, and a build whose four downloads are all rejected by the decoder.
\<close>

theorem do_build_task_failure:
  assumes "mset order = mset archs"
    and cm: "create_module project_tag w = (None, w1)"
    and rt: "run_tasks e order frida_tag project_tag w1 = (futures, w2)"
    and fail: "(arch, Some err) \<in> set futures"
  shows "\<exists>failed cause.
           (failed, Some cause) \<in> set futures \<and> failed \<in> set archs
           \<and> first_exception futures = Some cause
           \<and> do_build e order frida_tag project_tag w = (Inl cause, w2)
           \<and> read_file w2 (module_zip project_tag) = read_file w (module_zip project_tag)
           \<and> read_file w2 (joinpath PATH_BUILD ''updater.json'')
               = read_file w (joinpath PATH_BUILD ''updater.json'')
           \<and> read_file w2 (joinpath PATH_BUILD_TMP ''module.prop'') \<noteq> None
           \<and> (\<forall>q c. under PATH_DOWNLOADS q \<and> read_file w q = Some c \<longrightarrow> read_file w2 q = Some c)
           \<and> (\<forall>a. (a, None) \<in> set futures \<longrightarrow>
                 read_file w2 (frida_server_path frida_tag a) \<noteq> None
                 \<and> read_file w2 (frida_server_dest a) \<noteq> None)
           \<and> (\<forall>a. (a, Some LZMAError) \<in> set futures \<longrightarrow>
                 (\<exists>c. read_file w2 (frida_server_path frida_tag a) = Some c \<and> unxz e c = None))
           \<and> (\<forall>q. read_file w1 q \<noteq> None \<longrightarrow> read_file w2 q \<noteq> None)"
proof -
  obtain failed cause where fc: "first_exception futures = Some cause"
    "(failed, Some cause) \<in> set futures"
    using first_exception_failed[OF fail] by blast
  have "failed \<in> set (map fst futures)" using fc(2) by force
  then have "failed \<in> set order" using run_tasks_order[OF rt] by simp
  then have in_archs: "failed \<in> set archs" using assms(1) by (metis set_mset_mset)
  have build: "do_build e order frida_tag project_tag w = (Inl cause, w2)"
    by (simp add: do_build_def cm rt fc(1))
  have zip: "read_file w2 (module_zip project_tag) = read_file w (module_zip project_tag)"
    using run_tasks_frame[OF rt, of "module_zip project_tag"]
      create_module_frame[OF cm zip_paths(1)] zip_paths(2,3) by simp
  have upd: "read_file w2 (joinpath PATH_BUILD ''updater.json'')
             = read_file w (joinpath PATH_BUILD ''updater.json'')"
    using run_tasks_frame[OF rt, of "joinpath PATH_BUILD ''updater.json''"]
      create_module_frame[OF cm updater_paths(1)] updater_paths(2,3) by simp
  have staged: "read_file w2 (joinpath PATH_BUILD_TMP ''module.prop'') \<noteq> None"
    by (rule run_tasks_exists[OF rt create_module_staged[OF cm]])
  have cache: "read_file w2 q = Some c" if "under PATH_DOWNLOADS q" "read_file w q = Some c" for q c
  proof -
    have "read_file w1 q = Some c"
      using create_module_frame[OF cm downloads_not_tmp[OF that(1)]] that(2) by simp
    then show ?thesis
      by (rule run_tasks_keeps[OF rt]) (rule downloads_not_dest[OF that(1)])
  qed
  have filled: "read_file w2 (frida_server_path frida_tag a) \<noteq> None
                \<and> read_file w2 (frida_server_dest a) \<noteq> None" if "(a, None) \<in> set futures" for a
    by (rule run_tasks_filled[OF rt that])
  have corrupt: "\<exists>c. read_file w2 (frida_server_path frida_tag a) = Some c \<and> unxz e c = None"
    if "(a, Some LZMAError) \<in> set futures" for a
    by (rule run_tasks_decode_failed[OF rt that])
  have kept: "read_file w2 q \<noteq> None" if "read_file w1 q \<noteq> None" for q
    by (rule run_tasks_exists[OF rt that])
  have part1: "(failed, Some cause) \<in> set futures \<and> failed \<in> set archs
      \<and> first_exception futures = Some cause
      \<and> do_build e order frida_tag project_tag w = (Inl cause, w2)"
    using fc in_archs build by simp
  have part2: "read_file w2 (module_zip project_tag) = read_file w (module_zip project_tag)
      \<and> read_file w2 (joinpath PATH_BUILD ''updater.json'')
          = read_file w (joinpath PATH_BUILD ''updater.json'')
      \<and> read_file w2 (joinpath PATH_BUILD_TMP ''module.prop'') \<noteq> None"
    using zip upd staged by simp
  have part3: "(\<forall>q c. under PATH_DOWNLOADS q \<and> read_file w q = Some c \<longrightarrow> read_file w2 q = Some c)
      \<and> (\<forall>a. (a, None) \<in> set futures \<longrightarrow>
                 read_file w2 (frida_server_path frida_tag a) \<noteq> None
                 \<and> read_file w2 (frida_server_dest a) \<noteq> None)
      \<and> (\<forall>a. (a, Some LZMAError) \<in> set futures \<longrightarrow>
                 (\<exists>c. read_file w2 (frida_server_path frida_tag a) = Some c \<and> unxz e c = None))
      \<and> (\<forall>q. read_file w1 q \<noteq> None \<longrightarrow> read_file w2 q \<noteq> None)"
    using cache filled corrupt kept by blast
  show ?thesis using part1 part2 part3 by blast
qed


lemmas eval_defs =
  create_module_def create_module_prop_def copytree_def rmtree_def path_exists_def under_def
  joinpath_def PATH_BASE_MODULE_def PATH_BUILD_def PATH_BUILD_TMP_def PATH_DOWNLOADS_def
  write_file_def read_file_def cached_world_def offline_env_def offline_def any_decoder_def
  fill_module_def download_file_def extract_file_def frida_server_path_def frida_server_dest_def
  archs_def do_build_def module_zip_def Let_def
  corrupt_env_def corrupt_download_def no_decoder_def template_world_def

lemma version_code_16_1_4_1: "generate_version_code ''16.1.4-1'' = Inr 16010401"
  by (simp add: generate_version_code_def re_split_dot_dash_def py_int_def strip_def is_space_def
      is_digit_def dec_value_def digit_val_def format_02d_def dec_digits.simps digit_char_def)

lemma cached_create_module: "fst (create_module ''16.1.4-1'' cached_world) = None"
  by (simp add: eval_defs version_code_16_1_4_1)

lemma cached_run_tasks:
  "fst (run_tasks offline_env archs ''16.1.4'' ''16.1.4-1'' (snd (create_module ''16.1.4-1'' cached_world)))
   = [(''arm'', None), (''arm64'', Some ConnectionError), (''x86'', Some ConnectionError),
      (''x86_64'', Some ConnectionError)]"
  by (simp add: eval_defs version_code_16_1_4_1)

lemma cached_left:
  "read_file (snd (run_tasks offline_env archs ''16.1.4'' ''16.1.4-1''
             (snd (create_module ''16.1.4-1'' cached_world))))
     ''build/tmp/files/frida-server-arm'' = Some (Data ''elf'')"
  "read_file cached_world ''build/MagiskFrida-16.1.4-1.zip'' = None"
  "read_file cached_world ''build/updater.json'' = None"
  "read_file cached_world ''downloads/frida-server-16.1.4-android-arm.xz'' = Some (Data ''xz'')"
  by (simp_all add: eval_defs version_code_16_1_4_1)

lemma corrupt_create_module: "fst (create_module ''16.1.4-1'' template_world) = None"
  by (simp add: eval_defs version_code_16_1_4_1)

lemma corrupt_run_tasks:
  "fst (run_tasks corrupt_env archs ''16.1.4'' ''16.1.4-1'' (snd (create_module ''16.1.4-1'' template_world)))
   = [(''arm'', Some LZMAError), (''arm64'', Some LZMAError), (''x86'', Some LZMAError),
      (''x86_64'', Some LZMAError)]"
  by (simp add: eval_defs version_code_16_1_4_1)

lemma corrupt_left:
  "read_file (snd (run_tasks corrupt_env archs ''16.1.4'' ''16.1.4-1''
             (snd (create_module ''16.1.4-1'' template_world))))
     ''downloads/frida-server-16.1.4-android-x86.xz'' = Some (Data ''bad'')"
  "read_file template_world ''build/MagiskFrida-16.1.4-1.zip'' = None"
  "read_file template_world ''downloads/frida-server-16.1.4-android-x86.xz'' = None"
  by (simp_all add: eval_defs version_code_16_1_4_1)

lemma build_paths:
  "module_zip ''16.1.4-1'' = ''build/MagiskFrida-16.1.4-1.zip''"
  "joinpath PATH_BUILD ''updater.json'' = ''build/updater.json''"
  "joinpath PATH_BUILD_TMP ''module.prop'' = ''build/tmp/module.prop''"
  "under PATH_DOWNLOADS ''downloads/frida-server-16.1.4-android-arm.xz''"
  "frida_server_path ''16.1.4'' ''x86'' = ''downloads/frida-server-16.1.4-android-x86.xz''"
  by (simp_all add: module_zip_def joinpath_def PATH_BUILD_def PATH_BUILD_TMP_def
      PATH_DOWNLOADS_def under_def frida_server_path_def)

theorem do_build_task_failure_witness:
  "mset archs = mset archs
   \<and> fst (create_module ''16.1.4-1'' cached_world) = None
   \<and> fst (run_tasks offline_env archs ''16.1.4'' ''16.1.4-1''
             (snd (create_module ''16.1.4-1'' cached_world)))
       = [(''arm'', None), (''arm64'', Some ConnectionError), (''x86'', Some ConnectionError),
          (''x86_64'', Some ConnectionError)]
   \<and> fst (do_build offline_env archs ''16.1.4'' ''16.1.4-1'' cached_world) = Inl ConnectionError
   \<and> read_file (snd (do_build offline_env archs ''16.1.4'' ''16.1.4-1'' cached_world))
        ''build/MagiskFrida-16.1.4-1.zip'' = None
   \<and> read_file (snd (do_build offline_env archs ''16.1.4'' ''16.1.4-1'' cached_world))
        ''build/updater.json'' = None
   \<and> read_file (snd (do_build offline_env archs ''16.1.4'' ''16.1.4-1'' cached_world))
        ''build/tmp/module.prop'' \<noteq> None
   \<and> read_file (snd (do_build offline_env archs ''16.1.4'' ''16.1.4-1'' cached_world))
        ''downloads/frida-server-16.1.4-android-arm.xz'' = Some (Data ''xz'')
   \<and> read_file (snd (do_build offline_env archs ''16.1.4'' ''16.1.4-1'' cached_world))
        ''build/tmp/files/frida-server-arm'' = Some (Data ''elf'')
   \<and> fst (create_module ''16.1.4-1'' template_world) = None
   \<and> fst (run_tasks corrupt_env archs ''16.1.4'' ''16.1.4-1''
             (snd (create_module ''16.1.4-1'' template_world)))
       = [(''arm'', Some LZMAError), (''arm64'', Some LZMAError), (''x86'', Some LZMAError),
          (''x86_64'', Some LZMAError)]
   \<and> fst (do_build corrupt_env archs ''16.1.4'' ''16.1.4-1'' template_world) = Inl LZMAError
   \<and> read_file template_world ''downloads/frida-server-16.1.4-android-x86.xz'' = None
   \<and> read_file (snd (do_build corrupt_env archs ''16.1.4'' ''16.1.4-1'' template_world))
        ''downloads/frida-server-16.1.4-android-x86.xz'' = Some (Data ''bad'')
   \<and> read_file (snd (do_build corrupt_env archs ''16.1.4'' ''16.1.4-1'' template_world))
        ''build/MagiskFrida-16.1.4-1.zip'' = None"
proof -
  let ?w1 = "snd (create_module ''16.1.4-1'' cached_world)"
  let ?rt = "run_tasks offline_env archs ''16.1.4'' ''16.1.4-1'' ?w1"
  let ?build = "do_build offline_env archs ''16.1.4'' ''16.1.4-1'' cached_world"
  have cm: "create_module ''16.1.4-1'' cached_world = (None, ?w1)"
    using cached_create_module by (metis prod.collapse)
  have rt: "?rt = (fst ?rt, snd ?rt)" by simp
  have fail: "(''arm64'', Some ConnectionError) \<in> set (fst ?rt)"
    by (simp add: cached_run_tasks)
  obtain failed cause where t:
    "first_exception (fst ?rt) = Some cause"
    "?build = (Inl cause, snd ?rt)"
    "read_file (snd ?rt) (module_zip ''16.1.4-1'') = read_file cached_world (module_zip ''16.1.4-1'')"
    "read_file (snd ?rt) (joinpath PATH_BUILD ''updater.json'')
       = read_file cached_world (joinpath PATH_BUILD ''updater.json'')"
    "read_file (snd ?rt) (joinpath PATH_BUILD_TMP ''module.prop'') \<noteq> None"
    "\<forall>q c. under PATH_DOWNLOADS q \<and> read_file cached_world q = Some c \<longrightarrow> read_file (snd ?rt) q = Some c"
    using do_build_task_failure[OF refl cm rt fail] by blast
  have cause: "cause = ConnectionError" using t(1) by (simp add: cached_run_tasks)
  have cache: "read_file (snd ?rt) ''downloads/frida-server-16.1.4-android-arm.xz'' = Some (Data ''xz'')"
    using t(6) build_paths(4) cached_left(4) by blast
  have first: "fst ?build = Inl ConnectionError
     \<and> read_file (snd ?build) ''build/MagiskFrida-16.1.4-1.zip'' = None
     \<and> read_file (snd ?build) ''build/updater.json'' = None
     \<and> read_file (snd ?build) ''build/tmp/module.prop'' \<noteq> None
     \<and> read_file (snd ?build) ''downloads/frida-server-16.1.4-android-arm.xz'' = Some (Data ''xz'')
     \<and> read_file (snd ?build) ''build/tmp/files/frida-server-arm'' = Some (Data ''elf'')"
    using t(3,4,5) cache cached_left(1,2,3) by (simp add: t(2) cause build_paths(1,2,3))
  let ?v1 = "snd (create_module ''16.1.4-1'' template_world)"
  let ?rc = "run_tasks corrupt_env archs ''16.1.4'' ''16.1.4-1'' ?v1"
  let ?bad = "do_build corrupt_env archs ''16.1.4'' ''16.1.4-1'' template_world"
  have cm': "create_module ''16.1.4-1'' template_world = (None, ?v1)"
    using corrupt_create_module by (metis prod.collapse)
  have rc: "?rc = (fst ?rc, snd ?rc)" by simp
  have fail': "(''x86'', Some LZMAError) \<in> set (fst ?rc)"
    by (simp add: corrupt_run_tasks)
  obtain failed' cause' where u:
    "first_exception (fst ?rc) = Some cause'"
    "?bad = (Inl cause', snd ?rc)"
    "read_file (snd ?rc) (module_zip ''16.1.4-1'') = read_file template_world (module_zip ''16.1.4-1'')"
    "\<forall>a. (a, Some LZMAError) \<in> set (fst ?rc) \<longrightarrow>
       (\<exists>c. read_file (snd ?rc) (frida_server_path ''16.1.4'' a) = Some c \<and> unxz corrupt_env c = None)"
    using do_build_task_failure[OF refl cm' rc fail'] by blast
  have cause': "cause' = LZMAError" using u(1) by (simp add: corrupt_run_tasks)
  have "\<exists>c. read_file (snd ?rc) (frida_server_path ''16.1.4'' ''x86'') = Some c"
    using u(4) fail' by blast
  then have "read_file (snd ?rc) ''downloads/frida-server-16.1.4-android-x86.xz'' = Some (Data ''bad'')"
    using corrupt_left(1) by simp
  then have second: "fst ?bad = Inl LZMAError
     \<and> read_file (snd ?bad) ''downloads/frida-server-16.1.4-android-x86.xz'' = Some (Data ''bad'')
     \<and> read_file (snd ?bad) ''build/MagiskFrida-16.1.4-1.zip'' = None"
    using u(3) corrupt_left(2) by (simp add: u(2) cause' build_paths(1))
  show ?thesis
    using first second cached_create_module cached_run_tasks corrupt_create_module
      corrupt_run_tasks corrupt_left(3)
    by simp
qed

end
